theory Spec2Isabelle
  imports Complex_Main "HOL-Library.Word"
begin

unbundle bit_operations_syntax

section \<open>Protocol messages\<close>

text \<open>
  The remote debugger of \<^verbatim>\<open>mindspore/ccsrc/debug/debugger/debugger.cc\<close>, as a shallow
  embedding. Protobuf messages are records whose fields carry the proto3 defaults when
  unset; C++ \<^verbatim>\<open>char\<close> buffers are lists of 8-bit words; \<^verbatim>\<open>int32_t\<close> and \<^verbatim>\<open>uint32_t\<close>
  members are 32-bit words. Logging is left out. The accessors and the per-node hooks
  \<^verbatim>\<open>PostExecuteNode\<close>, \<^verbatim>\<open>PostDebugOp\<close> and \<^verbatim>\<open>ReadNodeDataRequired\<close>, which no property
  below is about, are not modelled.
\<close>

type_synonym byte = "8 word"

record TensorProto =
  t_node_name :: string
  t_slot :: string
  t_iter :: string
  t_truncate :: bool
  t_finished :: bool
  t_tensor_content :: "byte list"
  t_data_type :: nat
  t_dims :: "int list"

text \<open>A default-constructed \<^verbatim>\<open>TensorProto tensor_item;\<close>.\<close>

definition TensorProto_new :: TensorProto where
  "TensorProto_new =
     \<lparr>t_node_name = [], t_slot = [], t_iter = [], t_truncate = False, t_finished = False,
      t_tensor_content = [], t_data_type = 0, t_dims = []\<rparr>"

text \<open>
  \<^verbatim>\<open>std::string::find_last_of("/")\<close> for a one-character set: the index of the last
  occurrence, \<open>None\<close> standing for \<^verbatim>\<open>npos\<close>.
\<close>

fun find_last_of :: "string \<Rightarrow> char \<Rightarrow> nat option" where
  "find_last_of [] c = None"
| "find_last_of (x # xs) c =
     (case find_last_of xs c of
        Some i \<Rightarrow> Some (Suc i)
      | None \<Rightarrow> (if x = c then Some 0 else None))"

text \<open>
  \<^verbatim>\<open>GetTensorFullName\<close>. With \<^verbatim>\<open>found == npos\<close> the unsigned sum \<^verbatim>\<open>found + 1\<close> wraps
  to 0 and \<^verbatim>\<open>substr(0)\<close> is the whole name; otherwise \<^verbatim>\<open>found + 1\<close> is at most the length,
  so \<^verbatim>\<open>substr\<close> never throws.
\<close>

definition GetTensorFullName :: "TensorProto \<Rightarrow> string" where
  "GetTensorFullName tensor =
     (let node_name = t_node_name tensor;
          node_name = (if t_truncate tensor
                       then (case find_last_of node_name CHR ''/'' of
                               None \<Rightarrow> drop 0 node_name
                             | Some found \<Rightarrow> drop (found + 1) node_name)
                       else node_name)
      in node_name @ '':'' @ t_slot tensor @
         (if t_iter tensor = [] then [] else '':'' @ t_iter tensor))"

definition AddTensorProtoInfo :: "TensorProto \<Rightarrow> TensorProto \<Rightarrow> TensorProto" where
  "AddTensorProtoInfo tensor_item tensor =
     tensor_item\<lparr>t_node_name := t_node_name tensor,
                 t_slot := t_slot tensor,
                 t_iter := t_iter tensor,
                 t_truncate := t_truncate tensor,
                 t_tensor_content := [],
                 t_data_type := 0,
                 t_dims := []\<rparr>"

section \<open>Tensor snapshot cache and \<^verbatim>\<open>LoadTensors\<close>\<close>

text \<open>
  One entry of the tensor loader as \<^verbatim>\<open>ReadNodesTensors\<close> reports it: the buffer behind
  \<^verbatim>\<open>data_ptr\<close>, the \<^verbatim>\<open>unsigned int\<close> byte count \<^verbatim>\<open>data_size\<close>, the element type and the
  shape. The five parallel result vectors of the source are one list of named entries.
\<close>

record TensorData =
  td_data_ptr :: "byte list"
  td_data_size :: "32 word"
  td_dtype :: nat
  td_shape :: "int list"

type_synonym tensor_loader = "string \<rightharpoonup> TensorData"

text \<open>
  Modelled from the spec: \<^verbatim>\<open>DebugServices::ReadNodesTensors\<close> is not part of the sources.
  The spec gives the cache's lookup as returning the matched subset of the requested
  names in request order, which is also what the comment at its call site says.
\<close>

definition ReadNodesTensors :: "tensor_loader \<Rightarrow> string list \<Rightarrow> (string \<times> TensorData) list" where
  "ReadNodesTensors loader name =
     List.map_filter (\<lambda>n. map_option (Pair n) (loader n)) name"

definition CHUNK_SIZE :: int where
  "CHUNK_SIZE = 1024 * 1024 * 3"

definition INT_MAX :: int where
  "INT_MAX = 2147483647"

datatype error = Signed_Overflow

text \<open>
  The inner \<^verbatim>\<open>while (size_iter < tensor_size)\<close> loop of \<^verbatim>\<open>LoadTensors\<close>. Both counters are
  C++ \<^verbatim>\<open>int\<close>; they are integers here, and the one addition that can leave the range of
  \<^verbatim>\<open>int\<close>, \<^verbatim>\<open>size_iter += CHUNK_SIZE\<close>, is undefined behaviour in the source and the error
  \<open>Signed_Overflow\<close> here. \<^verbatim>\<open>set_tensor_content(data_ptr + size_iter, chunk_size)\<close> copies
  \<open>chunk_size\<close> bytes of the buffer from offset \<open>size_iter\<close>. The type conversion
  \<^verbatim>\<open>GetDebuggerNumberDataType\<close> is outside the sources and is the parameter \<open>dt\<close>.
\<close>

function chunk_loop ::
  "(nat \<Rightarrow> nat) \<Rightarrow> TensorProto \<Rightarrow> TensorData \<Rightarrow> int \<Rightarrow> int \<Rightarrow> TensorProto list
     \<Rightarrow> error + TensorProto list" where
  "chunk_loop dt tensor entry tensor_size size_iter tensor_list =
     (if size_iter < tensor_size then
        (let fin = (tensor_size - size_iter \<le> CHUNK_SIZE);
             chunk_size = (if fin then tensor_size - size_iter else CHUNK_SIZE);
             tensor_item = TensorProto_new\<lparr>t_finished := fin\<rparr>;
             tensor_item = AddTensorProtoInfo tensor_item tensor;
             tensor_item = tensor_item\<lparr>t_tensor_content :=
                 take (nat chunk_size) (drop (nat size_iter) (td_data_ptr entry))\<rparr>;
             tensor_item = tensor_item\<lparr>t_data_type := dt (td_dtype entry)\<rparr>;
             tensor_item = tensor_item\<lparr>t_dims := t_dims tensor_item @ td_shape entry\<rparr>
         in if size_iter + CHUNK_SIZE > INT_MAX then Inl Signed_Overflow
            else chunk_loop dt tensor entry tensor_size (size_iter + CHUNK_SIZE)
                   (tensor_list @ [tensor_item]))
      else Inr tensor_list)"
  by pat_completeness auto
termination
  by (relation "measure (\<lambda>(dt, tensor, entry, tensor_size, size_iter, tensor_list).
        nat (tensor_size - size_iter))") (auto simp: CHUNK_SIZE_def)

declare chunk_loop.simps [simp del]

text \<open>
  The outer \<^verbatim>\<open>for (auto tensor : tensors)\<close> loop, with \<^verbatim>\<open>result_index\<close> and \<^verbatim>\<open>tensor_list\<close>
  as loop state. \<^verbatim>\<open>int tensor_size = data_size[result_index]\<close> converts \<^verbatim>\<open>unsigned int\<close> to
  \<^verbatim>\<open>int\<close>: the two's complement reading \<open>sint\<close>.
\<close>

fun LoadTensors_loop ::
  "(nat \<Rightarrow> nat) \<Rightarrow> (string \<times> TensorData) list \<Rightarrow> TensorProto list \<Rightarrow> nat \<Rightarrow> TensorProto list
     \<Rightarrow> error + TensorProto list" where
  "LoadTensors_loop dt ret [] result_index tensor_list = Inr tensor_list"
| "LoadTensors_loop dt ret (tensor # tensors) result_index tensor_list =
     (if result_index \<ge> length ret \<or> fst (ret ! result_index) \<noteq> GetTensorFullName tensor then
        (let tensor_item = TensorProto_new\<lparr>t_finished := True\<rparr>;
             tensor_item = AddTensorProtoInfo tensor_item tensor
         in LoadTensors_loop dt ret tensors result_index (tensor_list @ [tensor_item]))
      else
        (let entry = snd (ret ! result_index);
             tensor_size = sint (td_data_size entry)
         in case chunk_loop dt tensor entry tensor_size 0 tensor_list of
              Inl e \<Rightarrow> Inl e
            | Inr tensor_list \<Rightarrow> LoadTensors_loop dt ret tensors (result_index + 1) tensor_list))"

definition LoadTensors ::
  "(nat \<Rightarrow> nat) \<Rightarrow> tensor_loader \<Rightarrow> TensorProto list \<Rightarrow> error + TensorProto list" where
  "LoadTensors dt loader tensors =
     (let name = map GetTensorFullName tensors;
          ret = ReadNodesTensors loader name
      in LoadTensors_loop dt ret tensors 0 [])"

section \<open>Floating-point timestamps\<close>

text \<open>
  A \<^verbatim>\<open>double\<close> as the debugger uses one: a value that \<^verbatim>\<open>std::stod\<close> returns, that is assigned
  and that is compared with \<^verbatim>\<open><=\<close> and \<^verbatim>\<open>>\<close>. The finite values are real numbers; NaN and
  the two infinities are values of their own. Every comparison with NaN is false.
\<close>

datatype double = NaN | MinusInfinity | Finite real | PlusInfinity

fun double_le :: "double \<Rightarrow> double \<Rightarrow> bool" where
  "double_le NaN y = False"
| "double_le x NaN = False"
| "double_le MinusInfinity y = True"
| "double_le x PlusInfinity = True"
| "double_le (Finite a) (Finite b) = (a \<le> b)"
| "double_le x y = False"

fun double_less :: "double \<Rightarrow> double \<Rightarrow> bool" where
  "double_less NaN y = False"
| "double_less x NaN = False"
| "double_less PlusInfinity y = False"
| "double_less x MinusInfinity = False"
| "double_less MinusInfinity y = True"
| "double_less x PlusInfinity = True"
| "double_less (Finite a) (Finite b) = (a < b)"

section \<open>Session state\<close>

text \<open>
  A \<^verbatim>\<open>KernelGraphPtr\<close> is a shared pointer: \<open>kg_addr\<close> is the address it holds, which is
  what \<^verbatim>\<open>graph_ptr_ != graph_ptr\<close> compares; \<open>kg_execution_order\<close> lists
  \<^verbatim>\<open>AnfAlgo::GetCNodeName\<close> of the nodes of \<^verbatim>\<open>execution_order()\<close>. The parameters of the
  graph are only logged and are left out.
\<close>

record KernelGraph =
  kg_addr :: nat
  kg_graph_id :: "32 word"
  kg_execution_order :: "string list"

datatype watchpoint =
  watchpoint (wp_condition: int) (wp_threshold: real) (wp_check_node_list: "(string \<times> bool) list")

text \<open>
  \<^verbatim>\<open>DebugServices\<close> holds the watchpoint table and the tensor loader. The loader is seen
  through its index by tensor name, which \<open>ReadNodesTensors\<close> looks up, and through the
  list of the tensors it has captured, in capture order, each with its node name and
  slot.
\<close>

type_synonym tensor_capture = "string \<times> string \<times> TensorData"

record DebugServices =
  watchpoint_table :: "32 word \<rightharpoonup> watchpoint"
  tensor_loader_of :: tensor_loader
  tensor_list_of :: "tensor_capture list"

definition DebugServices_new :: DebugServices where
  "DebugServices_new =
     \<lparr>watchpoint_table = Map.empty, tensor_loader_of = Map.empty, tensor_list_of = []\<rparr>"

text \<open>
  Modelled from the spec: \<^verbatim>\<open>TensorLoader::GetTensor\<close> and \<^verbatim>\<open>GetNodeTensorMap\<close> are not part of
  the sources. The spec: the cache exposes
  \<open>Enumerate(optional_node_filter) -> list<TensorCapture>\<close>. \<^verbatim>\<open>GetTensor()\<close> is \<open>Enumerate\<close>
  without a filter, every captured tensor, and \<^verbatim>\<open>GetNodeTensorMap(node)\<close> is \<open>Enumerate\<close>
  filtered to the tensors captured under one node.
\<close>

definition GetTensor :: "DebugServices \<Rightarrow> tensor_capture list" where
  "GetTensor ds = tensor_list_of ds"

definition GetNodeTensorMap :: "DebugServices \<Rightarrow> string \<Rightarrow> tensor_capture list" where
  "GetNodeTensorMap ds watchnode = filter (\<lambda>capture. fst capture = watchnode) (tensor_list_of ds)"

text \<open>
  Modelled from the spec: \<^verbatim>\<open>DebugServices::AddWatchpoint\<close> and \<^verbatim>\<open>RemoveWatchpoint\<close> are not
  part of the sources. The spec: \<open>Add\<close> registers or replaces the watchpoint at \<open>id\<close>;
  \<open>Remove\<close> deletes it if present and is a no-op otherwise.
\<close>

definition AddWatchpoint ::
  "32 word \<Rightarrow> int \<Rightarrow> real \<Rightarrow> (string \<times> bool) list \<Rightarrow> DebugServices \<Rightarrow> DebugServices" where
  "AddWatchpoint wid cond threshold check_node_list ds =
     ds\<lparr>watchpoint_table := (watchpoint_table ds)(wid \<mapsto> watchpoint cond threshold check_node_list)\<rparr>"

definition RemoveWatchpoint_ds :: "32 word \<Rightarrow> DebugServices \<Rightarrow> DebugServices" where
  "RemoveWatchpoint_ds wid ds = ds\<lparr>watchpoint_table := (watchpoint_table ds)(wid := None)\<rparr>"

text \<open>
  The members of \<^verbatim>\<open>class Debugger\<close>. A \<^verbatim>\<open>unique_ptr\<close> or \<^verbatim>\<open>shared_ptr\<close> member is an option,
  \<open>None\<close> for \<^verbatim>\<open>nullptr\<close>; the gRPC client is the host and port it was constructed with.
  \<^verbatim>\<open>num_step_\<close> is an \<^verbatim>\<open>int32_t\<close>, held as the 32 bits that \<open>sint\<close> reads. The access lock is
  not modelled: all calls come from the one execution thread.
\<close>

record Debugger =
  grpc_client :: "(string \<times> string) option"
  debug_services :: "DebugServices option"
  graph_ptr :: "KernelGraph option"
  device_id :: "32 word"
  device_target :: string
  num_step :: "32 word"
  debugger_enabled :: bool
  run_level :: string
  node_name :: string
  cur_name :: string
  training_done :: bool
  is_dataset_graph :: bool
  partial_memory :: bool
  stream_task_to_opname :: "(32 word \<times> 32 word) \<rightharpoonup> string"
  last_overflow_bin :: double
  overflow_bin_path :: string

text \<open>The constructor \<^verbatim>\<open>Debugger::Debugger()\<close>.\<close>

definition Debugger_new :: Debugger where
  "Debugger_new =
     \<lparr>grpc_client = None, debug_services = None, graph_ptr = None, device_id = 0,
      device_target = [], num_step = 0, debugger_enabled = False, run_level = [],
      node_name = [], cur_name = [], training_done = False, is_dataset_graph = False,
      partial_memory = False, stream_task_to_opname = Map.empty, last_overflow_bin = Finite 0,
      overflow_bin_path = []\<rparr>"

definition Init :: "32 word \<Rightarrow> string \<Rightarrow> Debugger \<Rightarrow> Debugger" where
  "Init new_device_id new_device_target d =
     d\<lparr>device_id := new_device_id, device_target := new_device_target\<rparr>"

definition Reset :: "Debugger \<Rightarrow> Debugger" where
  "Reset d =
     d\<lparr>device_id := 0,
       device_target := [],
       num_step := 0,
       debugger_enabled := False,
       is_dataset_graph := False,
       partial_memory := False,
       graph_ptr := None,
       grpc_client := None,
       debug_services := None,
       last_overflow_bin := Finite 0,
       overflow_bin_path := [],
       stream_task_to_opname := Map.empty\<rparr>"

section \<open>Environment\<close>

datatype file_type = DT_REG | DT_OTHER

datatype dirent = dirent (d_type: file_type) (d_name: string)

text \<open>
  What the debugger reads from outside this file, taken as parameters: the process
  environment (\<^verbatim>\<open>std::getenv\<close>), the constant \<^verbatim>\<open>kGPUDevice\<close>, the GPU runtime instance reduced
  to its \<^verbatim>\<open>DumpDataEnabled()\<close> answer (\<open>None\<close> for a null instance), the compile-time flag
  \<^verbatim>\<open>ENABLE_D\<close>, \<^verbatim>\<open>DumpJsonParser::GetOpOverflowBinPath\<close>, the file system (\<^verbatim>\<open>opendir\<close> with
  \<^verbatim>\<open>readdir\<close> as the list of entries, \<open>None\<close> when the directory cannot be opened; the
  bytes of a file, \<open>None\<close> when it cannot be opened), \<^verbatim>\<open>std::stod\<close> (\<open>None\<close> when it throws),
  whether plain \<^verbatim>\<open>char\<close> is signed on the platform, \<^verbatim>\<open>GetDebuggerNumberDataType\<close>, and the
  watchpoint evaluation \<^verbatim>\<open>DebugServices::CheckWatchpoints\<close>: from the debug services it is
  called on (the watchpoint table), the overflow ops and the tensor list it is given, the
  rows of name, slot, condition and watchpoint id that it writes to its four output
  vectors.
\<close>

record environment =
  getenv :: "string \<Rightarrow> string option"
  kGPUDevice :: string
  GetSingleKernelRuntime :: "string \<Rightarrow> 32 word \<Rightarrow> bool option"
  ENABLE_D :: bool
  GetOpOverflowBinPath :: "32 word \<Rightarrow> 32 word \<Rightarrow> string"
  opendir :: "string \<Rightarrow> dirent list option"
  open_file :: "string \<Rightarrow> byte list option"
  stod :: "string \<Rightarrow> double option"
  char_is_signed :: bool
  GetDebuggerNumberDataType :: "nat \<Rightarrow> nat"
  DebugServices_CheckWatchpoints ::
    "DebugServices \<Rightarrow> string list \<Rightarrow> tensor_capture list
       \<Rightarrow> (string \<times> string \<times> int \<times> 32 word) list"

text \<open>
  How a call can end other than by returning: \<^verbatim>\<open>std::exit(EXIT_FAILURE)\<close>, a C++ exception
  (\<^verbatim>\<open>MS_EXCEPTION_IF_NULL\<close>, \<^verbatim>\<open>std::stod\<close>), undefined behaviour (a null pointer dereferenced,
  signed overflow), or blocked in \<^verbatim>\<open>WaitForCommand\<close> with no reply to come.
\<close>

datatype stop = Exit_Failure | Exception | Undefined_Behaviour | Awaiting_Command

section \<open>Configuration: \<^verbatim>\<open>CheckPort\<close> and the host pattern\<close>

text \<open>
  \<^verbatim>\<open>CheckPort\<close> walks a NUL-terminated string. The comparisons \<^verbatim>\<open>*p < '0' || *p > '9'\<close> are
  on character codes; a byte above 127 fails one of them whether \<^verbatim>\<open>char\<close> is signed or
  not. \<open>num\<close> never exceeds 655359, so the \<^verbatim>\<open>int\<close> arithmetic does not overflow.
\<close>

fun CheckPort_loop :: "string \<Rightarrow> int \<Rightarrow> bool" where
  "CheckPort_loop [] num = True"
| "CheckPort_loop (c # p) num =
     (if (of_char c :: nat) < of_char CHR ''0'' \<or> (of_char c :: nat) > of_char CHR ''9'' then False
      else (let num = num * 10 + of_char c - of_char CHR ''0''
            in if num < 1 \<or> num > 65535 then False else CheckPort_loop p num))"

definition CheckPort :: "string \<Rightarrow> bool" where
  "CheckPort port =
     (if port \<noteq> [] \<and> hd port = CHR ''0'' \<and> tl port \<noteq> [] then False
      else CheckPort_loop port 0)"

definition in_range :: "char \<Rightarrow> char \<Rightarrow> char \<Rightarrow> bool" where
  "in_range lo hi c \<longleftrightarrow> (of_char lo :: nat) \<le> of_char c \<and> (of_char c :: nat) \<le> of_char hi"

text \<open>
  The two octet alternations of \<^verbatim>\<open>reg_ip\<close>:
  \<^verbatim>\<open>25[0-4]|2[0-4][0-9]|1[0-9][0-9]|[1-9][0-9]|[1-9]\<close> for the first and last octet and
  \<^verbatim>\<open>25[0-5]|2[0-4][0-9]|1[0-9][0-9]|[1-9][0-9]|[0-9]\<close> for the two in the middle.
\<close>

fun octet_outer :: "string \<Rightarrow> bool" where
  "octet_outer [a] = in_range CHR ''1'' CHR ''9'' a"
| "octet_outer [a, b] = (in_range CHR ''1'' CHR ''9'' a \<and> in_range CHR ''0'' CHR ''9'' b)"
| "octet_outer [a, b, c] =
     ((a = CHR ''2'' \<and> b = CHR ''5'' \<and> in_range CHR ''0'' CHR ''4'' c) \<or>
      (a = CHR ''2'' \<and> in_range CHR ''0'' CHR ''4'' b \<and> in_range CHR ''0'' CHR ''9'' c) \<or>
      (a = CHR ''1'' \<and> in_range CHR ''0'' CHR ''9'' b \<and> in_range CHR ''0'' CHR ''9'' c))"
| "octet_outer _ = False"

fun octet_inner :: "string \<Rightarrow> bool" where
  "octet_inner [a] = in_range CHR ''0'' CHR ''9'' a"
| "octet_inner [a, b] = (in_range CHR ''1'' CHR ''9'' a \<and> in_range CHR ''0'' CHR ''9'' b)"
| "octet_inner [a, b, c] =
     ((a = CHR ''2'' \<and> b = CHR ''5'' \<and> in_range CHR ''0'' CHR ''5'' c) \<or>
      (a = CHR ''2'' \<and> in_range CHR ''0'' CHR ''4'' b \<and> in_range CHR ''0'' CHR ''9'' c) \<or>
      (a = CHR ''1'' \<and> in_range CHR ''0'' CHR ''9'' b \<and> in_range CHR ''0'' CHR ''9'' c))"
| "octet_inner _ = False"

fun split_on :: "char \<Rightarrow> string \<Rightarrow> string list" where
  "split_on sep [] = [[]]"
| "split_on sep (c # cs) =
     (if c = sep then [] # split_on sep cs
      else (case split_on sep cs of
              [] \<Rightarrow> [[c]]
            | part # parts \<Rightarrow> (c # part) # parts))"

text \<open>
  \<^verbatim>\<open>std::regex_match(host_str, smat, reg_ip)\<close>: the whole string is four octets joined by
  dots. No octet alternative matches a dot, so the string matches exactly when its four
  dot-separated parts match their alternations.
\<close>

definition reg_ip_match :: "string \<Rightarrow> bool" where
  "reg_ip_match host_str =
     (case split_on CHR ''.'' host_str of
        [a, b, c, d] \<Rightarrow> octet_outer a \<and> octet_inner b \<and> octet_inner c \<and> octet_outer d
      | _ \<Rightarrow> False)"

section \<open>Overflow records\<close>

text \<open>
  \<^verbatim>\<open>(uint64_t)buffer[i]\<close> converts a plain \<^verbatim>\<open>char\<close>: sign-extended where \<^verbatim>\<open>char\<close> is signed
  (x86-64), zero-extended where it is unsigned (AArch64).
\<close>

definition char_to_uint64 :: "bool \<Rightarrow> byte \<Rightarrow> 64 word" where
  "char_to_uint64 is_signed c = (if is_signed then scast c else ucast c)"

definition BytestoInt64 :: "bool \<Rightarrow> byte list \<Rightarrow> 64 word" where
  "BytestoInt64 is_signed buffer =
     push_bit 56 (char_to_uint64 is_signed (buffer ! 7)) OR
     push_bit 48 (char_to_uint64 is_signed (buffer ! 6)) OR
     push_bit 40 (char_to_uint64 is_signed (buffer ! 5)) OR
     push_bit 32 (char_to_uint64 is_signed (buffer ! 4)) OR
     push_bit 24 (char_to_uint64 is_signed (buffer ! 3)) OR
     push_bit 16 (char_to_uint64 is_signed (buffer ! 2)) OR
     push_bit 8 (char_to_uint64 is_signed (buffer ! 1)) OR
     char_to_uint64 is_signed (buffer ! 0)"

definition BUF_SIZ :: nat where
  "BUF_SIZ = 256"

text \<open>
  \<^verbatim>\<open>infile.seekg(313); buffer.resize(BUF_SIZ); infile.read(buffer.data(), BUF_SIZ)\<close>: the
  zero-filled buffer receives the bytes of the file from offset 313, as many as there
  are, at most 256.
\<close>

definition read_record :: "byte list \<Rightarrow> byte list" where
  "read_record content = take BUF_SIZ (drop 313 content @ replicate BUF_SIZ 0)"

text \<open>
  The \<^verbatim>\<open>readdir\<close> loop of \<^verbatim>\<open>CheckOpOverflow\<close>, with \<^verbatim>\<open>bin_list\<close> and \<^verbatim>\<open>op_names\<close> as loop state.
  The map is keyed by pairs of \<^verbatim>\<open>uint32_t\<close>: \<^verbatim>\<open>find(std::make_pair(stream_id, task_id))\<close>
  truncates the two 64-bit values.
\<close>

fun CheckOpOverflow_loop ::
  "environment \<Rightarrow> Debugger \<Rightarrow> dirent list \<Rightarrow> double list \<Rightarrow> string list
     \<Rightarrow> stop + (double list \<times> string list)" where
  "CheckOpOverflow_loop env d [] bin_list op_names = Inr (bin_list, op_names)"
| "CheckOpOverflow_loop env d (dir # rest) bin_list op_names =
     (if d_type dir = DT_REG then
        (let file_path = overflow_bin_path d @ d_name dir;
             file_name = d_name dir
         in case find_last_of file_name CHR ''.'' of
              None \<Rightarrow> CheckOpOverflow_loop env d rest bin_list op_names
            | Some found \<Rightarrow>
                (let overflow_time = drop (found + 1) file_name
                 in case stod env overflow_time of
                      None \<Rightarrow> Inl Exception
                    | Some t \<Rightarrow>
                        if double_le t (last_overflow_bin d)
                        then CheckOpOverflow_loop env d rest bin_list op_names
                        else
                          (let bin_list = bin_list @ [t]
                           in case open_file env file_path of
                                None \<Rightarrow> CheckOpOverflow_loop env d rest bin_list op_names
                              | Some content \<Rightarrow>
                                  (let buffer = read_record content;
                                       stream_id = BytestoInt64 (char_is_signed env) (drop 8 buffer);
                                       task_id = BytestoInt64 (char_is_signed env) (drop 16 buffer)
                                   in case stream_task_to_opname d (ucast stream_id, ucast task_id) of
                                        Some op_name \<Rightarrow>
                                          CheckOpOverflow_loop env d rest bin_list (op_names @ [op_name])
                                      | None \<Rightarrow>
                                          CheckOpOverflow_loop env d rest bin_list op_names))))
      else CheckOpOverflow_loop env d rest bin_list op_names)"

text \<open>The closing \<^verbatim>\<open>for (auto &i : bin_list)\<close> loop that raises the watermark.\<close>

fun raise_watermark :: "double list \<Rightarrow> double \<Rightarrow> double" where
  "raise_watermark [] last_bin = last_bin"
| "raise_watermark (i # bin_list) last_bin =
     raise_watermark bin_list (if double_less last_bin i then i else last_bin)"

definition CheckOpOverflow :: "environment \<Rightarrow> Debugger \<Rightarrow> stop + (string list \<times> Debugger)" where
  "CheckOpOverflow env d =
     (case (case opendir env (overflow_bin_path d) of
              None \<Rightarrow> Inr ([], [])
            | Some entries \<Rightarrow> CheckOpOverflow_loop env d entries [] []) of
        Inl s \<Rightarrow> Inl s
      | Inr (bin_list, op_names) \<Rightarrow>
          Inr (op_names, d\<lparr>last_overflow_bin := raise_watermark bin_list (last_overflow_bin d)\<rparr>))"

section \<open>Commands and events\<close>

datatype WatchNode = WatchNode (wn_node_name: string) (wn_node_type: string)

datatype WatchCondition = WatchCondition (wc_condition: int) (wc_value: real)

datatype RunCMD = RunCMD (rc_run_level: string) (rc_node_name: string)

datatype SetCMD =
  SetCMD (sc_watch_nodes: "WatchNode list") (sc_watch_condition: "WatchCondition option")
    (sc_id: "32 word") (sc_delete: bool)

datatype ViewCMD = ViewCMD (vc_tensors: "TensorProto list")

text \<open>The \<^verbatim>\<open>oneof cmd\<close> of an \<^verbatim>\<open>EventReply\<close>, by its \<^verbatim>\<open>cmd_case()\<close>.\<close>

datatype CmdCase = CMD_NOT_SET | kExit bool | kRunCmd RunCMD | kSetCmd SetCMD | kViewCmd ViewCMD

datatype Status = OK | FAILED

datatype EventReply = EventReply (status: Status) (cmd: CmdCase)

datatype DebuggerCommand = kExitCMD | kRunCMD | kSetCMD | kViewCMD | kUnknownCMD

fun GetCommand :: "EventReply \<Rightarrow> DebuggerCommand" where
  "GetCommand (EventReply s (kExit b)) = kExitCMD"
| "GetCommand (EventReply s (kRunCmd r)) = kRunCMD"
| "GetCommand (EventReply s (kSetCmd c)) = kSetCMD"
| "GetCommand (EventReply s (kViewCmd v)) = kViewCMD"
| "GetCommand (EventReply s CMD_NOT_SET) = kUnknownCMD"

fun GetWatchnodes :: "EventReply \<Rightarrow> WatchNode list" where
  "GetWatchnodes (EventReply s (kSetCmd c)) = sc_watch_nodes c"
| "GetWatchnodes reply = []"

fun GetRunLevel :: "EventReply \<Rightarrow> string" where
  "GetRunLevel (EventReply s (kRunCmd r)) = rc_run_level r"
| "GetRunLevel reply = []"

fun GetNodeName :: "EventReply \<Rightarrow> string" where
  "GetNodeName (EventReply s (kRunCmd r)) = rc_node_name r"
| "GetNodeName reply = []"

fun GetWatchcondition :: "EventReply \<Rightarrow> WatchCondition" where
  "GetWatchcondition (EventReply s (kSetCmd c)) =
     (case sc_watch_condition c of None \<Rightarrow> WatchCondition 0 0 | Some wc \<Rightarrow> wc)"
| "GetWatchcondition reply = WatchCondition 0 0"

fun GetWatchpointID :: "EventReply \<Rightarrow> 32 word" where
  "GetWatchpointID (EventReply s (kSetCmd c)) = sc_id c"
| "GetWatchpointID reply = 0"

fun GetWatchpointDelete :: "EventReply \<Rightarrow> bool" where
  "GetWatchpointDelete (EventReply s (kSetCmd c)) = sc_delete c"
| "GetWatchpointDelete reply = False"

fun GetTensors :: "EventReply \<Rightarrow> TensorProto list" where
  "GetTensors (EventReply s (kViewCmd v)) = vc_tensors v"
| "GetTensors reply = []"

record Metadata =
  md_device_name :: string
  md_cur_step :: "32 word"
  md_backend :: string
  md_cur_node :: string
  md_training_done :: bool

datatype WatchpointHit =
  WatchpointHit (hit_id: "32 word") (hit_tensor: TensorProto) (hit_condition: int)

text \<open>
  What the debugger does to the outside, in order: the calls on the gRPC client (the
  status of a reply to \<^verbatim>\<open>SendMetadata\<close>, \<^verbatim>\<open>SendGraph\<close>, \<^verbatim>\<open>SendWatchpointHits\<close> and
  \<^verbatim>\<open>SendTensors\<close> is only logged, so these replies are not inputs of the model), the sleeps
  in milliseconds, \<^verbatim>\<open>pipeline::ClearResAtexit()\<close>, and the memory-reuse switch of the
  context. The graph proto sent by \<^verbatim>\<open>SendGraph\<close> stands as the graph it is built from.
\<close>

datatype event =
    Ev_SendMetadata Metadata
  | Ev_SendGraph KernelGraph
  | Ev_WaitForCommand Metadata
  | Ev_SendWatchpointHits "WatchpointHit list"
  | Ev_SendTensors "TensorProto list"
  | Ev_sleep_for int
  | Ev_ClearResAtexit
  | Ev_set_mem_reuse bool

text \<open>
  The debugger with the events so far and the replies \<^verbatim>\<open>WaitForCommand\<close> is still to
  receive. A call returns (\<open>Done\<close>) or stops.
\<close>

record world =
  dbg :: Debugger
  trace :: "event list"
  inbox :: "EventReply list"

datatype 'a outcome = Done 'a world | Stopped stop world

section \<open>Enabling the debugger\<close>

definition CheckDebuggerDumpEnabled :: "environment \<Rightarrow> Debugger \<Rightarrow> stop + bool" where
  "CheckDebuggerDumpEnabled env d =
     (if device_target d = kGPUDevice env then
        (case GetSingleKernelRuntime env (kGPUDevice env) (device_id d) of
           None \<Rightarrow> Inl Exception
         | Some dump_data_enabled \<Rightarrow> Inr dump_data_enabled)
      else Inr False)"

definition CheckDebuggerEnabled :: "environment \<Rightarrow> bool" where
  "CheckDebuggerEnabled env =
     (case getenv env ''ENABLE_MS_DEBUGGER'' of
        Some env_enable_str \<Rightarrow> env_enable_str = ''1''
      | None \<Rightarrow> False)"

definition DebuggerBackendEnabled :: "environment \<Rightarrow> Debugger \<Rightarrow> stop + bool" where
  "DebuggerBackendEnabled env d =
     (case CheckDebuggerDumpEnabled env d of
        Inl s \<Rightarrow> Inl s
      | Inr dump_enabled \<Rightarrow> Inr (dump_enabled \<or> CheckDebuggerEnabled env))"

text \<open>
  The \<^verbatim>\<open>readdir\<close> loop of the \<^verbatim>\<open>ENABLE_D\<close> block of \<^verbatim>\<open>EnableDebugger\<close>; it looks for the last
  dot in the whole path and raises \<^verbatim>\<open>last_overflow_bin_\<close> as it goes.
\<close>

fun EnableDebugger_scan ::
  "environment \<Rightarrow> string \<Rightarrow> dirent list \<Rightarrow> double \<Rightarrow> stop + double" where
  "EnableDebugger_scan env path [] last_bin = Inr last_bin"
| "EnableDebugger_scan env path (dir # rest) last_bin =
     (if d_type dir = DT_REG then
        (let file_path = path @ d_name dir
         in case find_last_of file_path CHR ''.'' of
              None \<Rightarrow> EnableDebugger_scan env path rest last_bin
            | Some found \<Rightarrow>
                (let overflow_time = drop (found + 1) file_path
                 in case stod env overflow_time of
                      None \<Rightarrow> Inl Exception
                    | Some t \<Rightarrow>
                        if double_le t last_bin then EnableDebugger_scan env path rest last_bin
                        else EnableDebugger_scan env path rest t))
      else EnableDebugger_scan env path rest last_bin)"

definition set_overflow_info :: "environment \<Rightarrow> Debugger \<Rightarrow> stop + Debugger" where
  "set_overflow_info env d =
     (case graph_ptr d of
        None \<Rightarrow> Inl Undefined_Behaviour
      | Some g \<Rightarrow>
          (let d = d\<lparr>overflow_bin_path := GetOpOverflowBinPath env (kg_graph_id g) (device_id d)\<rparr>;
               d = d\<lparr>last_overflow_bin := Finite 0\<rparr>
           in case opendir env (overflow_bin_path d) of
                None \<Rightarrow> Inr d
              | Some entries \<Rightarrow>
                  (case EnableDebugger_scan env (overflow_bin_path d) entries (last_overflow_bin d) of
                     Inl s \<Rightarrow> Inl s
                   | Inr t \<Rightarrow> Inr (d\<lparr>last_overflow_bin := t\<rparr>))))"

text \<open>
  The three configuration blocks of \<^verbatim>\<open>EnableDebugger\<close> (``configure grpc host'',
  ``configure grpc port'', ``configure partial memory reuse''). The first two give the
  local string \<open>host\<close> or \<open>port\<close>, which stays empty when the variable is rejected.
\<close>

definition configure_host :: "environment \<Rightarrow> Debugger \<Rightarrow> string \<times> Debugger" where
  "configure_host env d =
     (case getenv env ''MS_DEBUGGER_HOST'' of
        Some host_str \<Rightarrow>
          if reg_ip_match host_str then (host_str, d)
          else ([], d\<lparr>debugger_enabled := False\<rparr>)
      | None \<Rightarrow> (''localhost'', d))"

definition configure_port :: "environment \<Rightarrow> Debugger \<Rightarrow> string \<times> Debugger" where
  "configure_port env d =
     (case getenv env ''MS_DEBUGGER_PORT'' of
        Some port_str \<Rightarrow>
          if CheckPort port_str then (port_str, d)
          else ([], d\<lparr>debugger_enabled := False\<rparr>)
      | None \<Rightarrow> (''50051'', d))"

definition configure_partial_mem :: "environment \<Rightarrow> Debugger \<Rightarrow> Debugger" where
  "configure_partial_mem env d =
     (case getenv env ''MS_DEBUGGER_PARTIAL_MEM'' of
        Some env_partial_mem_str \<Rightarrow>
          if env_partial_mem_str = ''1'' then d\<lparr>partial_memory := True\<rparr> else d
      | None \<Rightarrow> d)"

text \<open>
  \<^verbatim>\<open>EnableDebugger\<close>. \<^verbatim>\<open>MsContext::GetInstance()\<close> is taken to return the context, so
  \<^verbatim>\<open>MS_EXCEPTION_IF_NULL(context_ptr)\<close> passes.
\<close>

definition EnableDebugger :: "environment \<Rightarrow> world \<Rightarrow> unit outcome" where
  "EnableDebugger env w =
     (let d = (dbg w)\<lparr>num_step := 0, debugger_enabled := False, partial_memory := False,
                      grpc_client := None, debug_services := None\<rparr>
      in case CheckDebuggerDumpEnabled env d of
           Inl s \<Rightarrow> Stopped s (w\<lparr>dbg := d\<rparr>)
         | Inr dump_enabled \<Rightarrow>
             (let d = d\<lparr>debugger_enabled := CheckDebuggerEnabled env\<rparr>
              in if \<not> debugger_enabled d \<and> \<not> dump_enabled then Done () (w\<lparr>dbg := d\<rparr>)
                 else
                   (let (host, d) = configure_host env d;
                        (port, d) = configure_port env d;
                        d = configure_partial_mem env d;
                        tr = trace w @ [Ev_set_mem_reuse (partial_memory d)]
                    in case (if ENABLE_D env then set_overflow_info env d else Inr d) of
                         Inl s \<Rightarrow> Stopped s (w\<lparr>dbg := d, trace := tr\<rparr>)
                       | Inr d \<Rightarrow>
                           (let d = (if debugger_enabled d
                                     then d\<lparr>grpc_client := Some (host, port)\<rparr> else d);
                                d = d\<lparr>debug_services := Some DebugServices_new\<rparr>
                            in Done () (w\<lparr>dbg := d, trace := tr\<rparr>)))))"

section \<open>The command loop\<close>

definition digit_chars :: string where
  "digit_chars = ''0123456789''"

text \<open>\<^verbatim>\<open>std::to_string\<close> of an unsigned value.\<close>

function to_string :: "nat \<Rightarrow> string" where
  "to_string n =
     (if n < 10 then [digit_chars ! n]
      else to_string (n div 10) @ [digit_chars ! (n mod 10)])"
  by pat_completeness auto
termination
  by (relation "measure id") auto

declare to_string.simps [simp del]

definition metadata_of :: "Debugger \<Rightarrow> KernelGraph \<Rightarrow> Metadata" where
  "metadata_of d g =
     \<lparr>md_device_name = to_string (unat (device_id d)) @ '':'' @ to_string (unat (kg_graph_id g)),
      md_cur_step = num_step d,
      md_backend = device_target d,
      md_cur_node = cur_name d,
      md_training_done = training_done d\<rparr>"

text \<open>\<^verbatim>\<open>Debugger::Exit\<close>: release the resources, then \<^verbatim>\<open>std::exit(EXIT_FAILURE)\<close>.\<close>

definition Exit :: "world \<Rightarrow> 'a outcome" where
  "Exit w = Stopped Exit_Failure (w\<lparr>trace := trace w @ [Ev_ClearResAtexit]\<rparr>)"

definition SetWatchpoint ::
  "WatchNode list \<Rightarrow> WatchCondition \<Rightarrow> 32 word \<Rightarrow> DebugServices \<Rightarrow> DebugServices" where
  "SetWatchpoint nodes condition wid ds =
     (let check_node_list = map (\<lambda>node. (wn_node_name node, wn_node_type node = ''scope'')) nodes
      in AddWatchpoint wid (wc_condition condition) (wc_value condition) check_node_list ds)"

definition max_num_wait_fail :: int where
  "max_num_wait_fail = 5"

text \<open>
  The \<^verbatim>\<open>while (!run)\<close> loop of \<^verbatim>\<open>CommandLoop\<close>, one reply of \<^verbatim>\<open>WaitForCommand\<close> per turn, with
  \<^verbatim>\<open>num_wait_fail\<close> as loop state. With no reply left the call is blocked.
\<close>

fun CommandLoop_loop ::
  "environment \<Rightarrow> Metadata \<Rightarrow> int \<Rightarrow> Debugger \<Rightarrow> event list \<Rightarrow> EventReply list \<Rightarrow> unit outcome" where
  "CommandLoop_loop env metadata num_wait_fail d tr [] =
     (case grpc_client d of
        None \<Rightarrow> Stopped Undefined_Behaviour \<lparr>dbg = d, trace = tr, inbox = []\<rparr>
      | Some client \<Rightarrow>
          Stopped Awaiting_Command \<lparr>dbg = d, trace = tr @ [Ev_WaitForCommand metadata], inbox = []\<rparr>)"
| "CommandLoop_loop env metadata num_wait_fail d tr (reply # rest) =
     (case grpc_client d of
        None \<Rightarrow> Stopped Undefined_Behaviour \<lparr>dbg = d, trace = tr, inbox = reply # rest\<rparr>
      | Some client \<Rightarrow>
          (let tr = tr @ [Ev_WaitForCommand metadata]
           in if status reply \<noteq> OK then
                (let num_wait_fail = num_wait_fail + 1
                 in if num_wait_fail > max_num_wait_fail
                    then Exit \<lparr>dbg = d, trace = tr, inbox = rest\<rparr>
                    else CommandLoop_loop env metadata num_wait_fail d
                           (tr @ [Ev_sleep_for (1000 * num_wait_fail)]) rest)
              else
                (case GetCommand reply of
                   kUnknownCMD \<Rightarrow> CommandLoop_loop env metadata num_wait_fail d tr rest
                 | kExitCMD \<Rightarrow> Exit \<lparr>dbg = d, trace = tr, inbox = rest\<rparr>
                 | kRunCMD \<Rightarrow>
                     Done () \<lparr>dbg = d\<lparr>run_level := GetRunLevel reply,
                                       node_name := GetNodeName reply\<rparr>,
                              trace = tr, inbox = rest\<rparr>
                 | kSetCMD \<Rightarrow>
                     (case debug_services d of
                        None \<Rightarrow> Stopped Undefined_Behaviour \<lparr>dbg = d, trace = tr, inbox = rest\<rparr>
                      | Some ds \<Rightarrow>
                          (let ds = (if GetWatchpointDelete reply
                                     then RemoveWatchpoint_ds (GetWatchpointID reply) ds
                                     else SetWatchpoint (GetWatchnodes reply)
                                            (GetWatchcondition reply) (GetWatchpointID reply) ds)
                           in CommandLoop_loop env metadata num_wait_fail
                                (d\<lparr>debug_services := Some ds\<rparr>) tr rest))
                 | kViewCMD \<Rightarrow>
                     (case debug_services d of
                        None \<Rightarrow> Stopped Undefined_Behaviour \<lparr>dbg = d, trace = tr, inbox = rest\<rparr>
                      | Some ds \<Rightarrow>
                          (case LoadTensors (GetDebuggerNumberDataType env) (tensor_loader_of ds)
                                  (GetTensors reply) of
                             Inl e \<Rightarrow> Stopped Undefined_Behaviour \<lparr>dbg = d, trace = tr, inbox = rest\<rparr>
                           | Inr tensors \<Rightarrow>
                               CommandLoop_loop env metadata num_wait_fail d
                                 (tr @ [Ev_SendTensors tensors]) rest)))))"

definition CommandLoop :: "environment \<Rightarrow> world \<Rightarrow> unit outcome" where
  "CommandLoop env w =
     (case graph_ptr (dbg w) of
        None \<Rightarrow> Stopped Undefined_Behaviour w
      | Some g \<Rightarrow> CommandLoop_loop env (metadata_of (dbg w) g) 0 (dbg w) (trace w) (inbox w))"

section \<open>The instrumentation hooks\<close>

definition SendMetadata :: "world \<Rightarrow> unit outcome" where
  "SendMetadata w =
     (case graph_ptr (dbg w) of
        None \<Rightarrow> Stopped Undefined_Behaviour w
      | Some g \<Rightarrow>
          (case grpc_client (dbg w) of
             None \<Rightarrow> Stopped Undefined_Behaviour w
           | Some client \<Rightarrow>
               Done () (w\<lparr>trace := trace w @ [Ev_SendMetadata (metadata_of (dbg w) g)]\<rparr>)))"

definition SendGraphAndSuspend :: "environment \<Rightarrow> world \<Rightarrow> unit outcome" where
  "SendGraphAndSuspend env w =
     (case SendMetadata w of
        Stopped s w \<Rightarrow> Stopped s w
      | Done u w \<Rightarrow>
          (case graph_ptr (dbg w) of
             None \<Rightarrow> Stopped Undefined_Behaviour w
           | Some g \<Rightarrow> CommandLoop env (w\<lparr>trace := trace w @ [Ev_SendGraph g]\<rparr>)))"

fun CheckDatasetGraph_loop :: "string list \<Rightarrow> bool" where
  "CheckDatasetGraph_loop [] = False"
| "CheckDatasetGraph_loop (cnode_name # nodes) =
     (if cnode_name = ''GetNext'' \<or> cnode_name = ''InitDataSetQueue'' then True
      else CheckDatasetGraph_loop nodes)"

definition CheckDatasetGraph :: "Debugger \<Rightarrow> stop + Debugger" where
  "CheckDatasetGraph d =
     (case graph_ptr d of
        None \<Rightarrow> Inl Undefined_Behaviour
      | Some g \<Rightarrow> Inr (d\<lparr>is_dataset_graph := CheckDatasetGraph_loop (kg_execution_order g)\<rparr>))"

text \<open>
  \<^verbatim>\<open>CheckGraphPtr\<close> for a graph pointer that is not null (the source dereferences it for
  the log before anything else).
\<close>

definition CheckGraphPtr :: "environment \<Rightarrow> KernelGraph \<Rightarrow> world \<Rightarrow> unit outcome" where
  "CheckGraphPtr env graph w =
     (if map_option kg_addr (graph_ptr (dbg w)) \<noteq> Some (kg_addr graph) then
        (let w = w\<lparr>dbg := (dbg w)\<lparr>graph_ptr := Some graph\<rparr>\<rparr>
         in case CheckDatasetGraph (dbg w) of
              Inl s \<Rightarrow> Stopped s w
            | Inr d \<Rightarrow>
                (let w = w\<lparr>dbg := d\<rparr>
                 in if \<not> is_dataset_graph (dbg w) then
                      (case EnableDebugger env w of
                         Stopped s w \<Rightarrow> Stopped s w
                       | Done u w \<Rightarrow>
                           if debugger_enabled (dbg w) then SendGraphAndSuspend env w
                           else Done () w)
                    else Done () w))
      else Done () w)"

definition PreExecute :: "environment \<Rightarrow> KernelGraph \<Rightarrow> world \<Rightarrow> unit outcome" where
  "PreExecute env graph w =
     (case DebuggerBackendEnabled env (dbg w) of
        Inl s \<Rightarrow> Stopped s w
      | Inr enabled \<Rightarrow> if enabled then CheckGraphPtr env graph w else Done () w)"

text \<open>
  The hit built from row \<open>i\<close> of the result vectors: the tensor of a hit is an indicator
  (node name, slot, finished) without content.
\<close>

definition hit_of :: "string \<times> string \<times> int \<times> 32 word \<Rightarrow> WatchpointHit" where
  "hit_of row =
     (case row of (name, slot, condition, watchpoint_id) \<Rightarrow>
        WatchpointHit watchpoint_id
          (TensorProto_new\<lparr>t_node_name := name, t_slot := slot, t_finished := True\<rparr>)
          condition)"

text \<open>
  \<^verbatim>\<open>Debugger::CheckWatchpoints(watchnode)\<close>: the overflow scan where \<^verbatim>\<open>ENABLE_D\<close> is defined,
  the choice of the tensor list by the watch node, the evaluation, and one hit per row.
  \<^verbatim>\<open>PostExecute\<close> calls it with the default argument, the empty string.
\<close>

definition CheckWatchpoints :: "environment \<Rightarrow> string \<Rightarrow> world \<Rightarrow> WatchpointHit list outcome" where
  "CheckWatchpoints env watchnode w =
     (case (if ENABLE_D env then CheckOpOverflow env (dbg w) else Inr ([], dbg w)) of
        Inl s \<Rightarrow> Stopped s w
      | Inr (overflow_ops, d) \<Rightarrow>
          (case debug_services d of
             None \<Rightarrow> Stopped Undefined_Behaviour (w\<lparr>dbg := d\<rparr>)
           | Some ds \<Rightarrow>
               (let tensor_list = (if watchnode = [] then GetTensor ds
                                   else GetNodeTensorMap ds watchnode);
                    rows = DebugServices_CheckWatchpoints env ds overflow_ops tensor_list;
                    hits = map hit_of rows
                in Done hits (w\<lparr>dbg := d\<rparr>))))"

definition SendWatchpointsAndSuspend ::
  "environment \<Rightarrow> WatchpointHit list \<Rightarrow> world \<Rightarrow> unit outcome" where
  "SendWatchpointsAndSuspend env points w =
     (if points \<noteq> [] then
        (case grpc_client (dbg w) of
           None \<Rightarrow> Stopped Undefined_Behaviour w
         | Some client \<Rightarrow> CommandLoop env (w\<lparr>trace := trace w @ [Ev_SendWatchpointHits points]\<rparr>))
      else CommandLoop env w)"

text \<open>
  \<^verbatim>\<open>PostExecute\<close>. \<^verbatim>\<open>num_step_++\<close> is signed arithmetic on an \<^verbatim>\<open>int32_t\<close>: at \<open>INT_MAX\<close> it is
  undefined behaviour.
\<close>

definition PostExecute :: "environment \<Rightarrow> world \<Rightarrow> unit outcome" where
  "PostExecute env w =
     (case DebuggerBackendEnabled env (dbg w) of
        Inl s \<Rightarrow> Stopped s w
      | Inr enabled \<Rightarrow>
          if enabled then
            (if run_level (dbg w) = ''node'' then Done () w
             else if debugger_enabled (dbg w) \<and> \<not> is_dataset_graph (dbg w) then
               (if device_target (dbg w) \<noteq> kGPUDevice env then
                  (if sint (num_step (dbg w)) = INT_MAX then Stopped Undefined_Behaviour w
                   else
                     (let w = w\<lparr>dbg := (dbg w)\<lparr>num_step := num_step (dbg w) + 1\<rparr>\<rparr>
                      in case CheckWatchpoints env [] w of
                           Stopped s w \<Rightarrow> Stopped s w
                         | Done hits w \<Rightarrow> SendWatchpointsAndSuspend env hits w))
                else CommandLoop env w)
             else Done () w)
          else Done () w)"

section \<open>Auxiliary definitions for the proofs\<close>

text \<open>
  The two shapes of reply item \<^verbatim>\<open>LoadTensors\<close> builds: the placeholder for a name the
  loader does not hold, and a chunk of a tensor it holds.
\<close>

definition placeholder :: "TensorProto \<Rightarrow> TensorProto" where
  "placeholder tensor =
     \<lparr>t_node_name = t_node_name tensor, t_slot = t_slot tensor, t_iter = t_iter tensor,
      t_truncate = t_truncate tensor, t_finished = True, t_tensor_content = [],
      t_data_type = 0, t_dims = []\<rparr>"

definition chunk_of :: "(nat \<Rightarrow> nat) \<Rightarrow> TensorProto \<Rightarrow> TensorData \<Rightarrow> bool \<Rightarrow> byte list \<Rightarrow> TensorProto" where
  "chunk_of dt tensor entry fin content =
     \<lparr>t_node_name = t_node_name tensor, t_slot = t_slot tensor, t_iter = t_iter tensor,
      t_truncate = t_truncate tensor, t_finished = fin, t_tensor_content = content,
      t_data_type = dt (td_dtype entry), t_dims = td_shape entry\<rparr>"

text \<open>
  What \<^verbatim>\<open>LoadTensors\<close> answers for one requested tensor on its own, and for a request list
  tensor by tensor. \<open>LoadTensors_replies_of\<close> below shows that the index walk of the source
  computes exactly this.
\<close>

definition reply_of :: "(nat \<Rightarrow> nat) \<Rightarrow> tensor_loader \<Rightarrow> TensorProto \<Rightarrow> error + TensorProto list" where
  "reply_of dt loader tensor =
     (case loader (GetTensorFullName tensor) of
        None \<Rightarrow> Inr [placeholder tensor]
      | Some entry \<Rightarrow> chunk_loop dt tensor entry (sint (td_data_size entry)) 0 [])"

fun replies_of :: "(nat \<Rightarrow> nat) \<Rightarrow> tensor_loader \<Rightarrow> TensorProto list \<Rightarrow> error + TensorProto list" where
  "replies_of dt loader [] = Inr []"
| "replies_of dt loader (tensor # tensors) =
     (case reply_of dt loader tensor of
        Inl e \<Rightarrow> Inl e
      | Inr a \<Rightarrow> (case replies_of dt loader tensors of Inl e \<Rightarrow> Inl e | Inr b \<Rightarrow> Inr (a @ b)))"

text \<open>The world a call leaves behind, however it ends.\<close>

fun world_of :: "'a outcome \<Rightarrow> world" where
  "world_of (Done a w) = w"
| "world_of (Stopped s w) = w"







text \<open>The number a digit string denotes, continuing from \<open>num\<close>, as the loop computes it.\<close>

fun decimal :: "string \<Rightarrow> int \<Rightarrow> int" where
  "decimal [] num = num"
| "decimal (c # p) num = decimal p (num * 10 + of_char c - of_char CHR ''0'')"

definition is_digit :: "char \<Rightarrow> bool" where
  "is_digit c \<longleftrightarrow> 48 \<le> (of_char c :: nat) \<and> (of_char c :: nat) \<le> 57"

text \<open>
  An environment with nothing set: no environment variable, no overflow directory, dump
  disabled, \<^verbatim>\<open>ENABLE_D\<close> off, no watchpoint hit. The examples below start from it.
\<close>

definition bare_environment :: environment where
  "bare_environment =
     \<lparr>getenv = (\<lambda>name. None), kGPUDevice = ''GPU'',
      GetSingleKernelRuntime = (\<lambda>device device_id. Some False), ENABLE_D = False,
      GetOpOverflowBinPath = (\<lambda>graph_id device_id. []), opendir = (\<lambda>path. None),
      open_file = (\<lambda>path. None), stod = (\<lambda>s. None), char_is_signed = True,
      GetDebuggerNumberDataType = id,
      DebugServices_CheckWatchpoints = (\<lambda>ds overflow_ops tensor_list. [])\<rparr>"


section \<open>Properties of \<^verbatim>\<open>GetTensorFullName\<close>\<close>

lemma find_last_of_None: "find_last_of xs c = None \<longleftrightarrow> c \<notin> set xs"
  by (induction xs) (auto split: option.splits)

lemma find_last_of_Some:
  "find_last_of xs c = Some i \<Longrightarrow>
     xs = take i xs @ c # drop (Suc i) xs \<and> c \<notin> set (drop (Suc i) xs)"
  by (induction xs arbitrary: i) (auto simp: find_last_of_None split: option.splits if_splits)

text \<open>
  Claim C5. \<^verbatim>\<open>GetTensorFullName\<close> resolves a requested tensor to \<open>base:slot\<close>, followed by
  \<open>:iter\<close> only when the iteration string is not empty. Without \<open>truncate\<close> the base is the
  node name. With \<open>truncate\<close> the base holds no \<open>/\<close> and is what follows the last \<open>/\<close> of
  the node name (the whole name when it has none). The instance after it evaluates the two
  examples of the claim: \<open>conv/bn/gamma\<close>, slot 0, iteration 5 gives \<open>gamma:0:5\<close> when
  truncated and \<open>conv/bn/gamma:0:5\<close> otherwise.
\<close>

theorem GetTensorFullName_resolves:
  "\<exists>base. GetTensorFullName tensor =
       base @ '':'' @ t_slot tensor @ (if t_iter tensor = [] then [] else '':'' @ t_iter tensor) \<and>
     (\<not> t_truncate tensor \<longrightarrow> base = t_node_name tensor) \<and>
     (t_truncate tensor \<longrightarrow>
        CHR ''/'' \<notin> set base \<and>
        (base = t_node_name tensor \<or> (\<exists>scope. t_node_name tensor = scope @ ''/'' @ base)))"
proof (cases "t_truncate tensor")
  case False
  then show ?thesis
    by (intro exI [of _ "t_node_name tensor"]) (simp add: GetTensorFullName_def Let_def)
next
  case True
  show ?thesis
  proof (cases "find_last_of (t_node_name tensor) CHR ''/''")
    case None
    then show ?thesis
      using True
      by (intro exI [of _ "t_node_name tensor"])
         (simp add: GetTensorFullName_def Let_def find_last_of_None [symmetric])
  next
    case (Some found)
    from find_last_of_Some [OF Some]
    have split: "t_node_name tensor =
        take found (t_node_name tensor) @ ''/'' @ drop (Suc found) (t_node_name tensor)"
      and last: "CHR ''/'' \<notin> set (drop (Suc found) (t_node_name tensor))"
      by simp_all
    have "\<exists>scope. t_node_name tensor = scope @ ''/'' @ drop (Suc found) (t_node_name tensor)"
      using split by (rule exI)
    then show ?thesis
      using True Some last
      by (intro exI [of _ "drop (Suc found) (t_node_name tensor)"])
         (simp add: GetTensorFullName_def Let_def)
  qed
qed

theorem GetTensorFullName_resolves_witness:
  "GetTensorFullName \<lparr>t_node_name = ''conv/bn/gamma'', t_slot = ''0'', t_iter = ''5'',
       t_truncate = True, t_finished = False, t_tensor_content = [], t_data_type = 0,
       t_dims = []\<rparr> = ''gamma:0:5'' \<and>
   GetTensorFullName \<lparr>t_node_name = ''conv/bn/gamma'', t_slot = ''0'', t_iter = ''5'',
       t_truncate = False, t_finished = False, t_tensor_content = [], t_data_type = 0,
       t_dims = []\<rparr> = ''conv/bn/gamma:0:5'' \<and>
   GetTensorFullName \<lparr>t_node_name = ''conv/bn/gamma'', t_slot = ''0'', t_iter = [],
       t_truncate = True, t_finished = False, t_tensor_content = [], t_data_type = 0,
       t_dims = []\<rparr> = ''gamma:0''"
  using GetTensorFullName_resolves
    [of "\<lparr>t_node_name = ''conv/bn/gamma'', t_slot = ''0'', t_iter = ''5'',
       t_truncate = True, t_finished = False, t_tensor_content = [], t_data_type = 0,
       t_dims = []\<rparr>"]
  by (simp add: GetTensorFullName_def)

section \<open>Properties of \<^verbatim>\<open>LoadTensors\<close>\<close>

lemma chunk_loop_step:
  assumes "i < n" and "i + CHUNK_SIZE \<le> INT_MAX"
  shows "chunk_loop dt tensor entry n i acc =
     chunk_loop dt tensor entry n (i + CHUNK_SIZE)
       (acc @ [chunk_of dt tensor entry (n - i \<le> CHUNK_SIZE)
          (take (nat (if n - i \<le> CHUNK_SIZE then n - i else CHUNK_SIZE))
             (drop (nat i) (td_data_ptr entry)))])"
  using assms
  by (subst chunk_loop.simps)
     (simp add: Let_def chunk_of_def AddTensorProtoInfo_def TensorProto_new_def)

lemma chunk_loop_overflow:
  assumes "i < n" and "i + CHUNK_SIZE > INT_MAX"
  shows "chunk_loop dt tensor entry n i acc = Inl Signed_Overflow"
  using assms by (subst chunk_loop.simps) (simp add: Let_def)

lemma chunk_loop_done:
  assumes "\<not> i < n"
  shows "chunk_loop dt tensor entry n i acc = Inr acc"
  using assms by (subst chunk_loop.simps) simp

lemma chunk_loop_acc:
  "chunk_loop dt tensor entry n i acc =
     (case chunk_loop dt tensor entry n i [] of Inl e \<Rightarrow> Inl e | Inr r \<Rightarrow> Inr (acc @ r))"
proof (induction "nat (n - i)" arbitrary: i acc rule: less_induct)
  case less
  consider "\<not> i < n" | "i < n" "i + CHUNK_SIZE > INT_MAX" | "i < n" "i + CHUNK_SIZE \<le> INT_MAX"
    by linarith
  then show ?case
  proof cases
    case 1
    then show ?thesis by (simp add: chunk_loop_done)
  next
    case 2
    then show ?thesis by (simp add: chunk_loop_overflow)
  next
    case 3
    have m: "nat (n - (i + CHUNK_SIZE)) < nat (n - i)"
      using 3 by (simp add: CHUNK_SIZE_def)
    show ?thesis
      unfolding chunk_loop_step [OF 3]
      by (subst less [OF m], subst (2) less [OF m]) (simp split: sum.splits)
  qed
qed


lemma no_overflow_below_cap:
  assumes "0 \<le> i" "CHUNK_SIZE dvd i" "i < n" "n \<le> 682 * CHUNK_SIZE"
  shows "i + CHUNK_SIZE \<le> INT_MAX"
proof -
  obtain k where k: "i = CHUNK_SIZE * k"
    using assms(2) by (auto simp: dvd_def)
  have "k < 682"
    using assms(3,4) unfolding k CHUNK_SIZE_def by simp
  then show ?thesis
    unfolding k CHUNK_SIZE_def INT_MAX_def by simp
qed

lemma chunk_loop_chunks:
  assumes "0 \<le> i" "CHUNK_SIZE dvd i" "n \<le> 682 * CHUNK_SIZE"
    and "int (length (td_data_ptr entry)) = n"
  shows "\<exists>chunks. chunk_loop dt tensor entry n i [] = Inr chunks \<and>
      concat (map t_tensor_content chunks) = drop (nat i) (td_data_ptr entry) \<and>
      (\<forall>c\<in>set chunks. c = chunk_of dt tensor entry (t_finished c) (t_tensor_content c) \<and>
          int (length (t_tensor_content c)) \<le> CHUNK_SIZE) \<and>
      (chunks = [] \<longleftrightarrow> \<not> i < n) \<and>
      (chunks \<noteq> [] \<longrightarrow> t_finished (last chunks) \<and> (\<forall>c\<in>set (butlast chunks). \<not> t_finished c)) \<and>
      int (length chunks) = (if i < n then (n - i + CHUNK_SIZE - 1) div CHUNK_SIZE else 0)"
  using assms(1,2)
proof (induction "nat (n - i)" arbitrary: i rule: less_induct)
  case less
  show ?case
  proof (cases "i < n")
    case False
    then show ?thesis
      using assms(4) by (simp add: chunk_loop_done)
  next
    case True
    let ?data = "td_data_ptr entry"
    let ?fin = "n - i \<le> CHUNK_SIZE"
    let ?content = "take (nat (if ?fin then n - i else CHUNK_SIZE)) (drop (nat i) ?data)"
    let ?item = "chunk_of dt tensor entry ?fin ?content"
    have ok: "i + CHUNK_SIZE \<le> INT_MAX"
      using no_overflow_below_cap [OF less.prems True assms(3)] .
    have m: "nat (n - (i + CHUNK_SIZE)) < nat (n - i)"
      using True by (simp add: CHUNK_SIZE_def)
    have pos: "0 \<le> i + CHUNK_SIZE" and dv: "CHUNK_SIZE dvd i + CHUNK_SIZE"
      using less.prems by (simp_all add: CHUNK_SIZE_def)
    obtain rest where rest: "chunk_loop dt tensor entry n (i + CHUNK_SIZE) [] = Inr rest"
      and cat: "concat (map t_tensor_content rest) = drop (nat (i + CHUNK_SIZE)) ?data"
      and each: "\<forall>c\<in>set rest. c = chunk_of dt tensor entry (t_finished c) (t_tensor_content c) \<and>
          int (length (t_tensor_content c)) \<le> CHUNK_SIZE"
      and emp: "rest = [] \<longleftrightarrow> \<not> i + CHUNK_SIZE < n"
      and fin: "rest \<noteq> [] \<longrightarrow> t_finished (last rest) \<and> (\<forall>c\<in>set (butlast rest). \<not> t_finished c)"
      and len: "int (length rest) =
          (if i + CHUNK_SIZE < n then (n - (i + CHUNK_SIZE) + CHUNK_SIZE - 1) div CHUNK_SIZE else 0)"
      using less.hyps [OF m pos dv] by blast
    have run: "chunk_loop dt tensor entry n i [] = Inr (?item # rest)"
      by (subst chunk_loop_step [OF True ok], subst chunk_loop_acc) (simp add: rest)
    have c1: "concat (map t_tensor_content (?item # rest)) = drop (nat i) ?data"
    proof (cases ?fin)
      case True
      then have "rest = []" using emp by simp
      moreover have "length (drop (nat i) ?data) = nat (n - i)"
        using assms(4) less.prems(1) by auto
      ultimately show ?thesis using True by (simp add: chunk_of_def)
    next
      case False
      have "nat (i + CHUNK_SIZE) = nat CHUNK_SIZE + nat i"
        using less.prems(1) by (simp add: CHUNK_SIZE_def)
      moreover have "take (nat CHUNK_SIZE) (drop (nat i) ?data) @ drop (nat CHUNK_SIZE + nat i) ?data
          = drop (nat i) ?data"
        by (metis append_take_drop_id drop_drop)
      ultimately show ?thesis using False cat by (simp add: chunk_of_def)
    qed
    have c2: "\<forall>c\<in>set (?item # rest). c = chunk_of dt tensor entry (t_finished c) (t_tensor_content c) \<and>
          int (length (t_tensor_content c)) \<le> CHUNK_SIZE"
      using each by (auto simp: chunk_of_def CHUNK_SIZE_def)
    have c4: "t_finished (last (?item # rest)) \<and> (\<forall>c\<in>set (butlast (?item # rest)). \<not> t_finished c)"
    proof (cases ?fin)
      case True
      then have "rest = []" using emp by simp
      then show ?thesis using True by (simp add: chunk_of_def)
    next
      case False
      then have "rest \<noteq> []" using emp by simp
      then show ?thesis using False fin by (simp add: chunk_of_def)
    qed
    have c5: "int (length (?item # rest)) = (n - i + CHUNK_SIZE - 1) div CHUNK_SIZE"
    proof (cases ?fin)
      case True
      then have "rest = []" using emp by simp
      moreover have "(n - i + CHUNK_SIZE - 1) div CHUNK_SIZE = 1"
        using True \<open>i < n\<close> by (simp add: CHUNK_SIZE_def)
      ultimately show ?thesis by simp
    next
      case False
      have "(n - i + CHUNK_SIZE - 1) div CHUNK_SIZE = (n - (i + CHUNK_SIZE) + CHUNK_SIZE - 1) div CHUNK_SIZE + 1"
        by (simp add: CHUNK_SIZE_def)
      then show ?thesis using False len by simp
    qed
    show ?thesis
      using run c1 c2 c4 c5 True by (intro exI [of _ "?item # rest"]) simp
  qed
qed

lemma ReadNodesTensors_Nil: "ReadNodesTensors loader [] = []"
  by (simp add: ReadNodesTensors_def)

lemma ReadNodesTensors_Cons:
  "ReadNodesTensors loader (n # ns) =
     (case loader n of None \<Rightarrow> ReadNodesTensors loader ns
      | Some entry \<Rightarrow> (n, entry) # ReadNodesTensors loader ns)"
  by (simp add: ReadNodesTensors_def split: option.splits)

lemma ReadNodesTensors_found:
  "(n, entry) \<in> set (ReadNodesTensors loader ns) \<Longrightarrow> loader n = Some entry"
  by (induction ns) (auto simp: ReadNodesTensors_Nil ReadNodesTensors_Cons split: option.splits)

lemma LoadTensors_loop_aligned:
  "LoadTensors_loop dt (pre @ ReadNodesTensors loader (map GetTensorFullName tensors)) tensors
      (length pre) acc =
     (case replies_of dt loader tensors of Inl e \<Rightarrow> Inl e | Inr r \<Rightarrow> Inr (acc @ r))"
proof (induction tensors arbitrary: pre acc)
  case Nil
  then show ?case by simp
next
  case (Cons tensor tensors)
  let ?names = "map GetTensorFullName tensors"
  let ?R = "ReadNodesTensors loader ?names"
  show ?case
  proof (cases "loader (GetTensorFullName tensor)")
    case None
    have ret: "ReadNodesTensors loader (map GetTensorFullName (tensor # tensors)) = ?R"
      using None by (simp add: ReadNodesTensors_Cons)
    have miss: "length pre \<ge> length (pre @ ?R) \<or>
        fst ((pre @ ?R) ! length pre) \<noteq> GetTensorFullName tensor"
    proof (cases ?R)
      case Nil
      then show ?thesis by simp
    next
      case (Cons p ps)
      then have "(fst p, snd p) \<in> set ?R" by simp
      then have "loader (fst p) = Some (snd p)" by (rule ReadNodesTensors_found)
      then have "fst p \<noteq> GetTensorFullName tensor" using None by auto
      then show ?thesis using Cons by simp
    qed
    have "LoadTensors_loop dt (pre @ ?R) (tensor # tensors) (length pre) acc =
        LoadTensors_loop dt (pre @ ?R) tensors (length pre) (acc @ [placeholder tensor])"
      using miss
      by (simp add: Let_def placeholder_def AddTensorProtoInfo_def TensorProto_new_def
            del: length_append nth_append_length)
    then show ?thesis
      unfolding ret using None
      by (simp add: Cons.IH reply_of_def split: sum.splits)
  next
    case (Some entry)
    have ret: "ReadNodesTensors loader (map GetTensorFullName (tensor # tensors)) =
        (GetTensorFullName tensor, entry) # ?R"
      using Some by (simp add: ReadNodesTensors_Cons)
    have next_pre: "pre @ (GetTensorFullName tensor, entry) # ?R =
        (pre @ [(GetTensorFullName tensor, entry)]) @ ?R"
      by simp
    have len: "length pre + 1 = length (pre @ [(GetTensorFullName tensor, entry)])"
      by simp
    show ?thesis
    proof (cases "chunk_loop dt tensor entry (sint (td_data_size entry)) 0 []")
      case (Inl e)
      then show ?thesis
        unfolding ret
        by (subst LoadTensors_loop.simps, subst chunk_loop_acc) (simp add: reply_of_def Some)
    next
      case (Inr b)
      have "LoadTensors_loop dt (pre @ (GetTensorFullName tensor, entry) # ?R) (tensor # tensors)
              (length pre) acc =
            LoadTensors_loop dt ((pre @ [(GetTensorFullName tensor, entry)]) @ ?R) tensors
              (length (pre @ [(GetTensorFullName tensor, entry)])) (acc @ b)"
        by (subst LoadTensors_loop.simps, subst chunk_loop_acc) (simp add: Inr)
      then show ?thesis
        unfolding ret
        by (simp only: Cons.IH) (simp add: reply_of_def Some Inr split: sum.splits)
    qed
  qed
qed

lemma LoadTensors_replies_of: "LoadTensors dt loader tensors = replies_of dt loader tensors"
  using LoadTensors_loop_aligned [of dt "[]" loader tensors "[]"]
  by (simp add: LoadTensors_def split: sum.splits)

lemma replies_of_append:
  "replies_of dt loader (xs @ ys) =
     (case replies_of dt loader xs of
        Inl e \<Rightarrow> Inl e
      | Inr a \<Rightarrow> (case replies_of dt loader ys of Inl e \<Rightarrow> Inl e | Inr b \<Rightarrow> Inr (a @ b)))"
  by (induction xs) (auto split: sum.splits)

lemma sint_small:
  fixes w :: "32 word"
  assumes "int (unat w) \<le> 682 * CHUNK_SIZE"
  shows "sint w = int (unat w)"
proof -
  have lt: "uint w < 2 ^ 31"
    using assms by (simp add: CHUNK_SIZE_def)
  have ge: "- (2 ^ 31) \<le> uint w"
  proof -
    have "- (2 ^ 31) \<le> (0::int)" by simp
    also have "0 \<le> uint w" by simp
    finally show ?thesis .
  qed
  have "signed_take_bit 31 (uint w) = uint w"
    using ge lt by (rule signed_take_bit_int_eq_self)
  then show ?thesis by (simp add: sint_uint)
qed

text \<open>
  What \<^verbatim>\<open>LoadTensors\<close> does for a requested tensor that the loader holds, with a buffer of
  \<open>S\<close> bytes where \<open>S\<close> is at most 682 chunks (so that no \<^verbatim>\<open>int\<close> of the loop overflows):
  it emits, between the replies of the tensors before and after it, \<open>\<lceil>S / CHUNK_SIZE\<rceil>\<close>
  chunks of at most \<open>CHUNK_SIZE\<close> = 3 MiB each, carrying the request's identity and the
  entry's type and shape, whose contents concatenate to the buffer; when there is a
  chunk, the last one and only the last one is finished. That is none for \<open>S = 0\<close>.
\<close>

lemma LoadTensors_found_chunks:
  assumes found: "loader (GetTensorFullName tensor) = Some entry"
    and size: "length (td_data_ptr entry) = unat (td_data_size entry)"
    and cap: "uint (td_data_size entry) \<le> 682 * CHUNK_SIZE"
    and before: "LoadTensors dt loader before = Inr out_before"
    and after: "LoadTensors dt loader after = Inr out_after"
  shows "\<exists>chunks.
      LoadTensors dt loader (before @ tensor # after) = Inr (out_before @ chunks @ out_after) \<and>
      concat (map t_tensor_content chunks) = td_data_ptr entry \<and>
      (\<forall>c\<in>set chunks.
          int (length (t_tensor_content c)) \<le> CHUNK_SIZE \<and>
          t_node_name c = t_node_name tensor \<and> t_slot c = t_slot tensor \<and>
          t_iter c = t_iter tensor \<and> t_truncate c = t_truncate tensor \<and>
          t_data_type c = dt (td_dtype entry) \<and> t_dims c = td_shape entry) \<and>
      (chunks \<noteq> [] \<longrightarrow>
          t_finished (last chunks) \<and> (\<forall>c\<in>set (butlast chunks). \<not> t_finished c)) \<and>
      int (length chunks) = (uint (td_data_size entry) + CHUNK_SIZE - 1) div CHUNK_SIZE \<and>
      (chunks = [] \<longleftrightarrow> td_data_size entry = 0)"
proof -
  let ?n = "uint (td_data_size entry)"
  have n: "sint (td_data_size entry) = ?n"
    using sint_small [of "td_data_size entry"] cap by simp
  have len: "int (length (td_data_ptr entry)) = ?n"
    using size by simp
  obtain chunks where run: "chunk_loop dt tensor entry ?n 0 [] = Inr chunks"
    and cat: "concat (map t_tensor_content chunks) = drop (nat 0) (td_data_ptr entry)"
    and each: "\<forall>c\<in>set chunks. c = chunk_of dt tensor entry (t_finished c) (t_tensor_content c) \<and>
          int (length (t_tensor_content c)) \<le> CHUNK_SIZE"
    and emp: "chunks = [] \<longleftrightarrow> \<not> 0 < ?n"
    and fin: "chunks \<noteq> [] \<longrightarrow> t_finished (last chunks) \<and> (\<forall>c\<in>set (butlast chunks). \<not> t_finished c)"
    and cnt: "int (length chunks) = (if 0 < ?n then (?n - 0 + CHUNK_SIZE - 1) div CHUNK_SIZE else 0)"
    using chunk_loop_chunks [of 0 ?n entry dt tensor] cap len by auto
  have reply: "reply_of dt loader tensor = Inr chunks"
    by (simp add: reply_of_def found n run)
  have whole: "LoadTensors dt loader (before @ tensor # after) = Inr (out_before @ chunks @ out_after)"
    using before after reply by (simp add: LoadTensors_replies_of replies_of_append)
  have meta: "\<forall>c\<in>set chunks.
          int (length (t_tensor_content c)) \<le> CHUNK_SIZE \<and>
          t_node_name c = t_node_name tensor \<and> t_slot c = t_slot tensor \<and>
          t_iter c = t_iter tensor \<and> t_truncate c = t_truncate tensor \<and>
          t_data_type c = dt (td_dtype entry) \<and> t_dims c = td_shape entry"
  proof
    fix c assume "c \<in> set chunks"
    then have c: "c = chunk_of dt tensor entry (t_finished c) (t_tensor_content c)"
      and l: "int (length (t_tensor_content c)) \<le> CHUNK_SIZE"
      using each by auto
    have "t_node_name c = t_node_name tensor \<and> t_slot c = t_slot tensor \<and>
          t_iter c = t_iter tensor \<and> t_truncate c = t_truncate tensor \<and>
          t_data_type c = dt (td_dtype entry) \<and> t_dims c = td_shape entry"
      by (subst c, subst (2) c, subst (3) c, subst (4) c, subst (5) c, subst (6) c)
         (simp add: chunk_of_def)
    with l show "int (length (t_tensor_content c)) \<le> CHUNK_SIZE \<and>
          t_node_name c = t_node_name tensor \<and> t_slot c = t_slot tensor \<and>
          t_iter c = t_iter tensor \<and> t_truncate c = t_truncate tensor \<and>
          t_data_type c = dt (td_dtype entry) \<and> t_dims c = td_shape entry"
      by simp
  qed
  have zero: "chunks = [] \<longleftrightarrow> td_data_size entry = 0"
  proof -
    have "(0 < ?n) = (?n \<noteq> 0)"
      using uint_ge_0 [of "td_data_size entry"] by linarith
    then show ?thesis using emp by (simp add: uint_0_iff)
  qed
  have cnt': "int (length chunks) = (?n + CHUNK_SIZE - 1) div CHUNK_SIZE"
  proof (cases "0 < ?n")
    case True
    then show ?thesis using cnt by simp
  next
    case False
    then have "?n = 0"
      using uint_ge_0 [of "td_data_size entry"] by linarith
    then show ?thesis using cnt by (simp add: CHUNK_SIZE_def)
  qed
  show ?thesis
    using whole cat meta fin cnt' zero by (intro exI [of _ chunks]) simp
qed

lemma LoadTensors_found_chunks_example:
  "\<exists>chunks.
     LoadTensors id
       [''w:0'' \<mapsto> \<lparr>td_data_ptr = replicate 3145729 7, td_data_size = 3145729, td_dtype = 11,
                    td_shape = [3145729]\<rparr>]
       [\<lparr>t_node_name = ''w'', t_slot = ''0'', t_iter = [], t_truncate = False,
         t_finished = False, t_tensor_content = [], t_data_type = 0, t_dims = []\<rparr>] = Inr chunks \<and>
     length chunks = 2 \<and>
     concat (map t_tensor_content chunks) = replicate 3145729 7 \<and>
     (\<forall>c\<in>set chunks. int (length (t_tensor_content c)) \<le> CHUNK_SIZE \<and> t_dims c = [3145729]) \<and>
     t_finished (last chunks) \<and> (\<forall>c\<in>set (butlast chunks). \<not> t_finished c)"
proof -
  let ?entry = "\<lparr>td_data_ptr = replicate 3145729 (7 :: byte), td_data_size = 3145729,
      td_dtype = 11, td_shape = [3145729]\<rparr>"
  let ?loader = "[''w:0'' \<mapsto> ?entry]"
  let ?tensor = "\<lparr>t_node_name = ''w'', t_slot = ''0'', t_iter = [], t_truncate = False,
      t_finished = False, t_tensor_content = [], t_data_type = 0, t_dims = []\<rparr>"
  have found: "?loader (GetTensorFullName ?tensor) = Some ?entry"
    by (simp add: GetTensorFullName_def)
  have size: "length (td_data_ptr ?entry) = unat (td_data_size ?entry)"
    by simp
  have cap: "uint (td_data_size ?entry) \<le> 682 * CHUNK_SIZE"
    by (simp add: CHUNK_SIZE_def)
  have none: "LoadTensors id ?loader [] = Inr []"
    by (simp add: LoadTensors_def ReadNodesTensors_def)
  obtain chunks where "LoadTensors id ?loader ([] @ ?tensor # []) = Inr ([] @ chunks @ [])"
    and "concat (map t_tensor_content chunks) = td_data_ptr ?entry"
    and "\<forall>c\<in>set chunks. int (length (t_tensor_content c)) \<le> CHUNK_SIZE \<and>
          t_node_name c = t_node_name ?tensor \<and> t_slot c = t_slot ?tensor \<and>
          t_iter c = t_iter ?tensor \<and> t_truncate c = t_truncate ?tensor \<and>
          t_data_type c = id (td_dtype ?entry) \<and> t_dims c = td_shape ?entry"
    and "chunks \<noteq> [] \<longrightarrow>
          t_finished (last chunks) \<and> (\<forall>c\<in>set (butlast chunks). \<not> t_finished c)"
    and "int (length chunks) = (uint (td_data_size ?entry) + CHUNK_SIZE - 1) div CHUNK_SIZE"
    and "chunks = [] \<longleftrightarrow> td_data_size ?entry = 0"
    using LoadTensors_found_chunks [OF found size cap none none] by blast
  then show ?thesis
    by (intro exI [of _ chunks]) (simp add: CHUNK_SIZE_def)
qed

text \<open>
  Claim C1 fails on a found tensor of size 0. The claim promises exactly one chunk for
  it, finished, with the metadata and no payload. The \<^verbatim>\<open>while (size_iter < tensor_size)\<close>
  loop is never entered for it, so the reply holds nothing for the tensor, although the
  comment in the loop says that the tensor is added to the result list, and although the
  same request is answered with one finished item when the loader does not hold the
  tensor at all.
\<close>

theorem LoadTensors_zero_size_no_chunk:
  "LoadTensors id
     [''w:0'' \<mapsto> \<lparr>td_data_ptr = [], td_data_size = 0, td_dtype = 11, td_shape = [0]\<rparr>]
     [\<lparr>t_node_name = ''w'', t_slot = ''0'', t_iter = [], t_truncate = False,
       t_finished = False, t_tensor_content = [], t_data_type = 0, t_dims = []\<rparr>] = Inr [] \<and>
   LoadTensors id Map.empty
     [\<lparr>t_node_name = ''w'', t_slot = ''0'', t_iter = [], t_truncate = False,
       t_finished = False, t_tensor_content = [], t_data_type = 0, t_dims = []\<rparr>] =
   Inr [\<lparr>t_node_name = ''w'', t_slot = ''0'', t_iter = [], t_truncate = False,
         t_finished = True, t_tensor_content = [], t_data_type = 0, t_dims = []\<rparr>]"
  by (simp add: GetTensorFullName_def LoadTensors_def ReadNodesTensors_def chunk_loop.simps
        AddTensorProtoInfo_def TensorProto_new_def)

text \<open>
  Beyond the range of \<^verbatim>\<open>int\<close> the size read from \<^verbatim>\<open>data_size\<close> is negative and the loop is
  not entered either: a tensor of 2 GiB is answered with no chunk.
\<close>

lemma LoadTensors_two_GiB_example:
  "LoadTensors id
     [''w:0'' \<mapsto> \<lparr>td_data_ptr = replicate 2147483648 0, td_data_size = 2147483648,
                  td_dtype = 11, td_shape = [2147483648]\<rparr>]
     [\<lparr>t_node_name = ''w'', t_slot = ''0'', t_iter = [], t_truncate = False,
       t_finished = False, t_tensor_content = [], t_data_type = 0, t_dims = []\<rparr>] = Inr []"
  by (simp add: GetTensorFullName_def LoadTensors_def ReadNodesTensors_def chunk_loop_done)

text \<open>
  Claim C6. A requested tensor that the loader does not hold is answered by exactly one
  item: finished, with the request's node name, slot, iteration and truncate flag, and
  with content, data type and dims cleared. The miss raises no error, and the tensors
  before and after it are answered as they are on their own, in request order.
\<close>

theorem LoadTensors_not_found_placeholder:
  assumes "loader (GetTensorFullName tensor) = None"
  shows "LoadTensors dt loader (before @ tensor # after) =
     (case LoadTensors dt loader before of
        Inl e \<Rightarrow> Inl e
      | Inr out_before \<Rightarrow>
          (case LoadTensors dt loader after of
             Inl e \<Rightarrow> Inl e
           | Inr out_after \<Rightarrow>
               Inr (out_before @
                    [\<lparr>t_node_name = t_node_name tensor, t_slot = t_slot tensor,
                      t_iter = t_iter tensor, t_truncate = t_truncate tensor,
                      t_finished = True, t_tensor_content = [], t_data_type = 0,
                      t_dims = []\<rparr>] @ out_after)))"
  using assms
  by (simp add: LoadTensors_replies_of replies_of_append reply_of_def placeholder_def
        split: sum.splits)

theorem LoadTensors_not_found_placeholder_witness:
  "LoadTensors id
     [''w:0'' \<mapsto> \<lparr>td_data_ptr = [1, 2, 3], td_data_size = 3, td_dtype = 11, td_shape = [3]\<rparr>]
     [\<lparr>t_node_name = ''w'', t_slot = ''0'', t_iter = [], t_truncate = False,
       t_finished = False, t_tensor_content = [], t_data_type = 0, t_dims = []\<rparr>,
      \<lparr>t_node_name = ''scope/absent'', t_slot = ''1'', t_iter = ''4'', t_truncate = True,
       t_finished = False, t_tensor_content = [9], t_data_type = 5, t_dims = [1]\<rparr>,
      \<lparr>t_node_name = ''w'', t_slot = ''0'', t_iter = [], t_truncate = False,
       t_finished = False, t_tensor_content = [], t_data_type = 0, t_dims = []\<rparr>] =
   Inr [\<lparr>t_node_name = ''w'', t_slot = ''0'', t_iter = [], t_truncate = False,
         t_finished = True, t_tensor_content = [1, 2, 3], t_data_type = 11, t_dims = [3]\<rparr>,
        \<lparr>t_node_name = ''scope/absent'', t_slot = ''1'', t_iter = ''4'', t_truncate = True,
         t_finished = True, t_tensor_content = [], t_data_type = 0, t_dims = []\<rparr>,
        \<lparr>t_node_name = ''w'', t_slot = ''0'', t_iter = [], t_truncate = False,
         t_finished = True, t_tensor_content = [1, 2, 3], t_data_type = 11, t_dims = [3]\<rparr>]"
  using LoadTensors_not_found_placeholder
    [where loader = "[''w:0'' \<mapsto> \<lparr>td_data_ptr = [1, 2, 3], td_data_size = 3, td_dtype = 11,
                                   td_shape = [3]\<rparr>]"
       and tensor = "\<lparr>t_node_name = ''scope/absent'', t_slot = ''1'', t_iter = ''4'',
         t_truncate = True, t_finished = False, t_tensor_content = [9], t_data_type = 5,
         t_dims = [1]\<rparr>"
       and before = "[\<lparr>t_node_name = ''w'', t_slot = ''0'', t_iter = [], t_truncate = False,
         t_finished = False, t_tensor_content = [], t_data_type = 0, t_dims = []\<rparr>]"
       and after = "[\<lparr>t_node_name = ''w'', t_slot = ''0'', t_iter = [], t_truncate = False,
         t_finished = False, t_tensor_content = [], t_data_type = 0, t_dims = []\<rparr>]"
       and dt = id]
  by (simp add: GetTensorFullName_def LoadTensors_def ReadNodesTensors_def chunk_loop.simps
        CHUNK_SIZE_def INT_MAX_def AddTensorProtoInfo_def TensorProto_new_def)

section \<open>Properties of \<^verbatim>\<open>Reset\<close>\<close>

text \<open>
  Claim C10. \<^verbatim>\<open>Reset\<close> puts the device id and target, the step counter, the enabled,
  dataset-graph and partial-memory flags, the graph pointer, the gRPC client, the debug
  services, the overflow watermark and path and the (stream, task) to op-name map back to
  the values the constructor gives them, and leaves the run level, the target node
  name, the current node name and the training-done flag as they were.
\<close>

theorem Reset_restores_initial:
  "Reset d = Debugger_new\<lparr>run_level := run_level d, node_name := node_name d,
                           cur_name := cur_name d, training_done := training_done d\<rparr>"
  by (cases d) (simp add: Reset_def Debugger_new_def)

section \<open>Properties of the overflow scan\<close>





lemma double_less_numbers: "double_less x y \<Longrightarrow> x \<noteq> NaN \<and> y \<noteq> NaN"
  by (cases x; cases y) simp_all
















text \<open>
  A file whose suffix \<^verbatim>\<open>std::stod\<close> converts to NaN is outside the statement above: NaN is
  not less than or equal to any watermark, so the file is read again on every scan, and
  NaN is not greater than any watermark, so the watermark stays.
\<close>

lemma CheckOpOverflow_NaN_example:
  "CheckOpOverflow
     (bare_environment\<lparr>
        opendir := [''/overflow/'' \<mapsto> [dirent DT_REG ''Opdebug.nan'']],
        open_file := [''/overflow/Opdebug.nan'' \<mapsto>
                         replicate 321 0 @ [5, 0, 0, 0, 0, 0, 0, 0, 9, 0, 0, 0, 0, 0, 0, 0]],
        stod := [''nan'' \<mapsto> NaN]\<rparr>)
     (Debugger_new\<lparr>overflow_bin_path := ''/overflow/'',
                    stream_task_to_opname := [(5, 9) \<mapsto> ''Conv2D-op1''],
                    last_overflow_bin := Finite 7.2\<rparr>) =
   Inr ([''Conv2D-op1''],
        Debugger_new\<lparr>overflow_bin_path := ''/overflow/'',
                      stream_task_to_opname := [(5, 9) \<mapsto> ''Conv2D-op1''],
                      last_overflow_bin := Finite 7.2\<rparr>)"
  by (simp add: CheckOpOverflow_def bare_environment_def Debugger_new_def read_record_def
        BUF_SIZ_def BytestoInt64_def char_to_uint64_def)

section \<open>Properties of \<^verbatim>\<open>BytestoInt64\<close>\<close>

lemma nat_or_disjoint:
  fixes m x :: nat
  assumes "x < 2 ^ k"
  shows "push_bit k m OR x = m * 2 ^ k + x"
proof -
  have tb: "take_bit k x = x"
    using assms by (simp add: take_bit_nat_eq_self)
  have "push_bit k m + x = push_bit k m OR x"
  proof (rule disjunctive_add)
    fix n
    have "bit x n \<Longrightarrow> n < k"
      using tb by (metis bit_take_bit_iff)
    then show "\<not> bit (push_bit k m) n \<or> \<not> bit x n"
      by (auto simp: bit_push_bit_iff)
  qed
  then show ?thesis by (simp add: push_bit_eq_mult)
qed

lemma unat_or_byte:
  fixes x :: "64 word" and c :: "8 word"
  assumes "unat x < 2 ^ k" and "k + 8 \<le> 64"
  shows "unat (push_bit k (ucast c :: 64 word) OR x) = unat c * 2 ^ k + unat x"
    and "unat (push_bit k (ucast c :: 64 word) OR x) < 2 ^ (k + 8)"
proof -
  have c: "unat c < 2 ^ 8"
    using unsigned_less [of c] by simp
  have "unat c < 2 ^ 64"
    using c by simp
  then have uc: "unat (ucast c :: 64 word) = unat c"
    by (simp add: unsigned_ucast_eq take_bit_nat_eq_self)
  have "unat c * 2 ^ k < 2 ^ 8 * 2 ^ k"
    using c by simp
  also have "\<dots> = 2 ^ (k + 8)"
    by (simp add: power_add)
  also have "\<dots> \<le> (2 :: nat) ^ 64"
    using assms(2) by (intro power_increasing) simp_all
  finally have small: "push_bit k (unat c) < 2 ^ 64"
    by (simp add: push_bit_eq_mult)
  have tb: "take_bit 64 (push_bit k (unat c)) = push_bit k (unat c)"
    using small by (rule take_bit_nat_eq_self)
  have pb: "unat (push_bit k (ucast c :: 64 word)) = push_bit k (unat c)"
    by (simp add: unsigned_push_bit_eq uc tb)
  show eq: "unat (push_bit k (ucast c :: 64 word) OR x) = unat c * 2 ^ k + unat x"
    by (simp add: unsigned_or_eq pb nat_or_disjoint [OF assms(1)])
  have "unat c * 2 ^ k + unat x < (unat c + 1) * 2 ^ k"
    using assms(1) by simp
  also have "\<dots> \<le> 2 ^ 8 * 2 ^ k"
    using c by (intro mult_right_mono) simp_all
  also have "\<dots> = 2 ^ (k + 8)"
    by (simp add: power_add)
  finally show "unat (push_bit k (ucast c :: 64 word) OR x) < 2 ^ (k + 8)"
    using eq by simp
qed


lemma BytestoInt64_zero_extended:
  "unat (BytestoInt64 False b) =
     unat (b ! 0) + unat (b ! 1) * 2 ^ 8 + unat (b ! 2) * 2 ^ 16 + unat (b ! 3) * 2 ^ 24 +
     unat (b ! 4) * 2 ^ 32 + unat (b ! 5) * 2 ^ 40 + unat (b ! 6) * 2 ^ 48 +
     unat (b ! 7) * 2 ^ 56"
proof -
  define x0 :: "64 word" where "x0 = push_bit 0 (ucast (b ! 0)) OR 0"
  define x1 where "x1 = push_bit 8 (ucast (b ! 1)) OR x0"
  define x2 where "x2 = push_bit 16 (ucast (b ! 2)) OR x1"
  define x3 where "x3 = push_bit 24 (ucast (b ! 3)) OR x2"
  define x4 where "x4 = push_bit 32 (ucast (b ! 4)) OR x3"
  define x5 where "x5 = push_bit 40 (ucast (b ! 5)) OR x4"
  define x6 where "x6 = push_bit 48 (ucast (b ! 6)) OR x5"
  define x7 where "x7 = push_bit 56 (ucast (b ! 7)) OR x6"
  have code: "BytestoInt64 False b = x7"
    unfolding BytestoInt64_def char_to_uint64_def x7_def x6_def x5_def x4_def x3_def x2_def
      x1_def x0_def
    by (simp only: or.assoc push_bit_0_id id_apply or.right_neutral if_False)
  have z: "unat (0 :: 64 word) < 2 ^ 0" by simp
  have k0: "0 + 8 \<le> (64 :: nat)" and k1: "8 + 8 \<le> (64 :: nat)" and k2: "16 + 8 \<le> (64 :: nat)"
    and k3: "24 + 8 \<le> (64 :: nat)" and k4: "32 + 8 \<le> (64 :: nat)" and k5: "40 + 8 \<le> (64 :: nat)"
    and k6: "48 + 8 \<le> (64 :: nat)" and k7: "56 + 8 \<le> (64 :: nat)"
    by simp_all
  have e: "(0 :: nat) + 8 = 8" "(8 :: nat) + 8 = 16" "(16 :: nat) + 8 = 24" "(24 :: nat) + 8 = 32"
    "(32 :: nat) + 8 = 40" "(40 :: nat) + 8 = 48" "(48 :: nat) + 8 = 56"
    by simp_all
  have v0: "unat x0 = unat (b ! 0) * 2 ^ 0 + unat (0 :: 64 word)"
    unfolding x0_def by (rule unat_or_byte(1) [OF z k0])
  have b0: "unat x0 < 2 ^ 8"
    unfolding x0_def using unat_or_byte(2) [OF z k0, of "b ! 0"] by (simp only: e)
  have v1: "unat x1 = unat (b ! 1) * 2 ^ 8 + unat x0"
    unfolding x1_def by (rule unat_or_byte(1) [OF b0 k1])
  have b1: "unat x1 < 2 ^ 16"
    unfolding x1_def using unat_or_byte(2) [OF b0 k1, of "b ! 1"] by (simp only: e)
  have v2: "unat x2 = unat (b ! 2) * 2 ^ 16 + unat x1"
    unfolding x2_def by (rule unat_or_byte(1) [OF b1 k2])
  have b2: "unat x2 < 2 ^ 24"
    unfolding x2_def using unat_or_byte(2) [OF b1 k2, of "b ! 2"] by (simp only: e)
  have v3: "unat x3 = unat (b ! 3) * 2 ^ 24 + unat x2"
    unfolding x3_def by (rule unat_or_byte(1) [OF b2 k3])
  have b3: "unat x3 < 2 ^ 32"
    unfolding x3_def using unat_or_byte(2) [OF b2 k3, of "b ! 3"] by (simp only: e)
  have v4: "unat x4 = unat (b ! 4) * 2 ^ 32 + unat x3"
    unfolding x4_def by (rule unat_or_byte(1) [OF b3 k4])
  have b4: "unat x4 < 2 ^ 40"
    unfolding x4_def using unat_or_byte(2) [OF b3 k4, of "b ! 4"] by (simp only: e)
  have v5: "unat x5 = unat (b ! 5) * 2 ^ 40 + unat x4"
    unfolding x5_def by (rule unat_or_byte(1) [OF b4 k5])
  have b5: "unat x5 < 2 ^ 48"
    unfolding x5_def using unat_or_byte(2) [OF b4 k5, of "b ! 5"] by (simp only: e)
  have v6: "unat x6 = unat (b ! 6) * 2 ^ 48 + unat x5"
    unfolding x6_def by (rule unat_or_byte(1) [OF b5 k6])
  have b6: "unat x6 < 2 ^ 56"
    unfolding x6_def using unat_or_byte(2) [OF b5 k6, of "b ! 6"] by (simp only: e)
  have v7: "unat x7 = unat (b ! 7) * 2 ^ 56 + unat x6"
    unfolding x7_def by (rule unat_or_byte(1) [OF b6 k7])
  show ?thesis
    unfolding code v7 v6 v5 v4 v3 v2 v1 v0
    by (simp only: power_0 mult_1_right unsigned_0 add_0_right add.commute add.left_commute)
qed

lemma read_record_offsets:
  assumes "337 \<le> length content" and "i < 8"
  shows "drop 8 (read_record content) ! i = content ! (321 + i)"
    and "drop 16 (read_record content) ! i = content ! (329 + i)"
  using assms by (auto simp: read_record_def BUF_SIZ_def nth_append add.commute min_def)

text \<open>
  Claim C9 is right about the offsets (\<open>read_record_offsets\<close>) and, where plain \<^verbatim>\<open>char\<close> is
  unsigned, about the value (\<open>BytestoInt64_zero_extended\<close>). Where \<^verbatim>\<open>char\<close> is signed the
  conversion \<^verbatim>\<open>(uint64_t)buffer[i]\<close> sign-extends: a task id of 200, stored as the bytes
  \<open>C8 00 00 00 00 00 00 00\<close>, is decoded as \<open>0xFFFFFFFFFFFFFFC8\<close>, not as 200.
\<close>

theorem BytestoInt64_sign_extends:
  "BytestoInt64 True [0xC8, 0, 0, 0, 0, 0, 0, 0] = 0xFFFFFFFFFFFFFFC8 \<and>
   BytestoInt64 False [0xC8, 0, 0, 0, 0, 0, 0, 0] = 200"
  by (simp add: BytestoInt64_def char_to_uint64_def)

section \<open>Properties of \<^verbatim>\<open>CheckPort\<close> and \<^verbatim>\<open>EnableDebugger\<close>\<close>

lemma decimal_snoc: "decimal (q @ [c]) num = decimal q num * 10 + of_char c - of_char CHR ''0''"
  by (induction q arbitrary: num) simp_all

lemma CheckPort_loop_snoc:
  "CheckPort_loop (q @ [c]) num \<longleftrightarrow>
     CheckPort_loop q num \<and> is_digit c \<and>
     1 \<le> decimal (q @ [c]) num \<and> decimal (q @ [c]) num \<le> 65535"
  by (induction q arbitrary: num) (auto simp: Let_def is_digit_def)

lemma digit_chars_nth:
  assumes "is_digit c"
  shows "digit_chars ! (of_char c - 48) = c"
proof -
  define k :: nat where "k = of_char c - 48"
  have k: "k < 10" and v: "(of_char c :: nat) = 48 + k"
    using assms unfolding is_digit_def k_def by linarith+
  have "k = 0 \<or> k = 1 \<or> k = 2 \<or> k = 3 \<or> k = 4 \<or> k = 5 \<or> k = 6 \<or> k = 7 \<or> k = 8 \<or> k = 9"
    using k by arith
  then have "(of_char (digit_chars ! k) :: nat) = of_char c"
    using v by (auto simp: digit_chars_def)
  then have "digit_chars ! k = c"
    by (simp only: of_char_eq_iff)
  then show ?thesis
    by (simp only: k_def)
qed

lemma digit_chars_is_digit:
  assumes "k < 10"
  shows "is_digit (digit_chars ! k)" and "(of_char (digit_chars ! k) :: nat) = 48 + k"
proof -
  have "k = 0 \<or> k = 1 \<or> k = 2 \<or> k = 3 \<or> k = 4 \<or> k = 5 \<or> k = 6 \<or> k = 7 \<or> k = 8 \<or> k = 9"
    using assms by arith
  then show "is_digit (digit_chars ! k)" and "(of_char (digit_chars ! k) :: nat) = 48 + k"
    by (auto simp: digit_chars_def is_digit_def)
qed


lemma to_string_accepted:
  "1 \<le> n \<Longrightarrow> n \<le> 65535 \<Longrightarrow>
     CheckPort_loop (to_string n) 0 \<and> decimal (to_string n) 0 = int n \<and>
     to_string n \<noteq> [] \<and> (hd (to_string n) = CHR ''0'' \<longrightarrow> tl (to_string n) = [])"
proof (induction n rule: to_string.induct)
  case (1 n)
  show ?case
  proof (cases "n < 10")
    case True
    then have ts: "to_string n = [digit_chars ! n]"
      by (subst to_string.simps) simp
    have "(of_char (digit_chars ! n) :: nat) = 48 + n"
      using True by (rule digit_chars_is_digit)
    then have "(of_char (digit_chars ! n) :: int) = 48 + int n"
      by (metis of_nat_of_char of_nat_add of_nat_numeral)
    then show ?thesis
      using True 1(2) digit_chars_is_digit(2) [OF True]
      by (simp add: ts)
  next
    case False
    then have ts: "to_string n = to_string (n div 10) @ [digit_chars ! (n mod 10)]"
      by (subst to_string.simps) simp
    have m: "n mod 10 < 10" by simp
    have q: "1 \<le> n div 10" "n div 10 \<le> 65535"
      using False 1(3) by simp_all
    from 1(1) [OF False q]
    have ih: "CheckPort_loop (to_string (n div 10)) 0"
      and val: "decimal (to_string (n div 10)) 0 = int (n div 10)"
      and ne: "to_string (n div 10) \<noteq> []"
      and lead: "hd (to_string (n div 10)) = CHR ''0'' \<longrightarrow> tl (to_string (n div 10)) = []"
      by simp_all
    have "(of_char (digit_chars ! (n mod 10)) :: nat) = 48 + n mod 10"
      using m by (rule digit_chars_is_digit)
    then have d: "(of_char (digit_chars ! (n mod 10)) :: int) = 48 + int (n mod 10)"
      by (metis of_nat_of_char of_nat_add of_nat_numeral)
    have total: "decimal (to_string n) 0 = int n"
      unfolding ts decimal_snoc val d by (simp add: zmod_int zdiv_int)
    have nz: "hd (to_string (n div 10)) \<noteq> CHR ''0''"
    proof
      assume z: "hd (to_string (n div 10)) = CHR ''0''"
      with lead ne have "to_string (n div 10) = [CHR ''0'']"
        by (cases "to_string (n div 10)") simp_all
      then have "decimal (to_string (n div 10)) 0 = 0" by simp
      with val q(1) show False by simp
    qed
    have "CheckPort_loop (to_string n) 0"
      unfolding ts CheckPort_loop_snoc
      using ih digit_chars_is_digit(1) [OF m] total 1(2,3) by (simp add: ts [symmetric])
    then show ?thesis
      using total nz ne by (simp add: ts)
  qed
qed

lemma accepted_to_string:
  "CheckPort_loop p 0 \<Longrightarrow> p \<noteq> [] \<Longrightarrow>
     1 \<le> decimal p 0 \<and> decimal p 0 \<le> 65535 \<and> to_string (nat (decimal p 0)) = p"
proof (induction p rule: rev_induct)
  case Nil
  then show ?case by simp
next
  case (snoc c q)
  from snoc.prems(1) have loop: "CheckPort_loop q 0" and dig: "is_digit c"
    and lo: "1 \<le> decimal (q @ [c]) 0" and hi: "decimal (q @ [c]) 0 \<le> 65535"
    by (simp_all add: CheckPort_loop_snoc)
  define k :: nat where "k = of_char c - 48"
  have k: "k < 10" and v: "(of_char c :: nat) = 48 + k"
    using dig unfolding is_digit_def k_def by linarith+
  have vi: "(of_char c :: int) = 48 + int k"
    using v by (metis of_nat_of_char of_nat_add of_nat_numeral)
  have ck: "digit_chars ! k = c"
    unfolding k_def using dig by (rule digit_chars_nth)
  have val: "decimal (q @ [c]) 0 = decimal q 0 * 10 + int k"
    by (simp add: decimal_snoc vi)
  show ?case
  proof (cases "q = []")
    case True
    then have "decimal (q @ [c]) 0 = int k"
      using val by simp
    moreover have "to_string k = [c]"
      using k ck by (subst to_string.simps) simp
    ultimately show ?thesis
      using lo hi True by simp
  next
    case False
    from snoc.IH [OF loop False]
    have qlo: "1 \<le> decimal q 0" and qs: "to_string (nat (decimal q 0)) = q"
      by simp_all
    define m where "m = nat (decimal q 0)"
    have m: "decimal q 0 = int m" "1 \<le> m"
      using qlo by (simp_all add: m_def)
    have n: "nat (decimal (q @ [c]) 0) = m * 10 + k"
      unfolding val m by (simp add: nat_add_distrib nat_mult_distrib)
    have "to_string (m * 10 + k) = to_string m @ [digit_chars ! k]"
      using m(2) k by (subst to_string.simps) simp
    then show ?thesis
      using lo hi n qs ck by (simp add: m_def)
  qed
qed

text \<open>
  \<^verbatim>\<open>CheckPort\<close> accepts the decimal representations of the integers from 1 to 65535, as
  \<^verbatim>\<open>std::to_string\<close> writes them, and one string more: the empty one.
\<close>

lemma CheckPort_iff:
  "CheckPort port \<longleftrightarrow> port = [] \<or> (\<exists>n. 1 \<le> n \<and> n \<le> 65535 \<and> port = to_string n)"
proof
  assume ok: "CheckPort port"
  show "port = [] \<or> (\<exists>n. 1 \<le> n \<and> n \<le> 65535 \<and> port = to_string n)"
  proof (cases "port = []")
    case True
    then show ?thesis by simp
  next
    case False
    have "CheckPort_loop port 0"
      using ok by (simp add: CheckPort_def split: if_splits)
    from accepted_to_string [OF this False]
    have "1 \<le> nat (decimal port 0) \<and> nat (decimal port 0) \<le> 65535 \<and>
        port = to_string (nat (decimal port 0))"
      by auto
    then show ?thesis by blast
  qed
next
  assume "port = [] \<or> (\<exists>n. 1 \<le> n \<and> n \<le> 65535 \<and> port = to_string n)"
  then show "CheckPort port"
  proof
    assume "port = []"
    then show ?thesis by (simp add: CheckPort_def)
  next
    assume "\<exists>n. 1 \<le> n \<and> n \<le> 65535 \<and> port = to_string n"
    then obtain n where n: "1 \<le> n" "n \<le> 65535" and p: "port = to_string n"
      by blast
    from to_string_accepted [OF n] show ?thesis
      by (simp add: CheckPort_def p)
  qed
qed

text \<open>
  A host that the pattern rejects, or a port that \<^verbatim>\<open>CheckPort\<close> rejects, leaves the debugger
  disabled and without a gRPC client; and \<^verbatim>\<open>EnableDebugger\<close> never exits the process.
\<close>

lemma configure_host_frame:
  "debugger_enabled (snd (configure_host env d)) \<longleftrightarrow>
     debugger_enabled d \<and>
     (case getenv env ''MS_DEBUGGER_HOST'' of Some host_str \<Rightarrow> reg_ip_match host_str | None \<Rightarrow> True)"
  "grpc_client (snd (configure_host env d)) = grpc_client d"
  by (simp_all add: configure_host_def split: option.splits)

lemma configure_port_frame:
  "debugger_enabled (snd (configure_port env d)) \<longleftrightarrow>
     debugger_enabled d \<and>
     (case getenv env ''MS_DEBUGGER_PORT'' of Some port_str \<Rightarrow> CheckPort port_str | None \<Rightarrow> True)"
  "grpc_client (snd (configure_port env d)) = grpc_client d"
  by (simp_all add: configure_port_def split: option.splits)

lemma configure_partial_mem_frame:
  "debugger_enabled (configure_partial_mem env d) = debugger_enabled d"
  "grpc_client (configure_partial_mem env d) = grpc_client d"
  by (simp_all add: configure_partial_mem_def split: option.splits)

lemma EnableDebugger_scan_stop:
  "EnableDebugger_scan env path entries last_bin = Inl s \<Longrightarrow> s = Exception"
  by (induction entries arbitrary: last_bin) (auto simp: Let_def split: if_splits option.splits)

lemma set_overflow_info_frame:
  "set_overflow_info env d = Inr d' \<Longrightarrow>
     debugger_enabled d' = debugger_enabled d \<and> grpc_client d' = grpc_client d"
  by (auto simp: set_overflow_info_def Let_def split: option.splits sum.splits)

lemma set_overflow_info_stop:
  "set_overflow_info env d = Inl s \<Longrightarrow> s \<noteq> Exit_Failure"
  by (auto simp: set_overflow_info_def Let_def dest: EnableDebugger_scan_stop
        split: option.splits sum.splits)

lemma CheckDebuggerDumpEnabled_stop:
  "CheckDebuggerDumpEnabled env d = Inl s \<Longrightarrow> s = Exception"
  by (auto simp: CheckDebuggerDumpEnabled_def split: if_splits option.splits)

lemma EnableDebugger_never_exits:
  "EnableDebugger env w \<noteq> Stopped Exit_Failure w'"
proof
  assume run: "EnableDebugger env w = Stopped Exit_Failure w'"
  let ?d0 = "(dbg w)\<lparr>num_step := 0, debugger_enabled := False, partial_memory := False,
                      grpc_client := None, debug_services := None\<rparr>"
  show False
  proof (cases "CheckDebuggerDumpEnabled env ?d0")
    case (Inl s)
    then show ?thesis
      using run CheckDebuggerDumpEnabled_stop [OF Inl] by (simp add: EnableDebugger_def)
  next
    case (Inr dump_enabled)
    let ?d1 = "?d0\<lparr>debugger_enabled := CheckDebuggerEnabled env\<rparr>"
    let ?d4 = "configure_partial_mem env
                 (snd (configure_port env (snd (configure_host env ?d1))))"
    show ?thesis
    proof (cases "ENABLE_D env")
      case False
      then show ?thesis
        using run Inr by (simp add: EnableDebugger_def Let_def case_prod_beta split: if_splits)
    next
      case True
      show ?thesis
      proof (cases "set_overflow_info env ?d4")
        case (Inl s)
        then show ?thesis
          using run Inr True set_overflow_info_stop [OF Inl]
          by (simp add: EnableDebugger_def Let_def case_prod_beta split: if_splits)
      next
        case (Inr d5)
        then show ?thesis
          using run \<open>CheckDebuggerDumpEnabled env ?d0 = Inr dump_enabled\<close> True
          by (simp add: EnableDebugger_def Let_def case_prod_beta split: if_splits)
      qed
    qed
  qed
qed

lemma EnableDebugger_bad_config_disables:
  assumes bad: "(\<exists>host_str. getenv env ''MS_DEBUGGER_HOST'' = Some host_str \<and> \<not> reg_ip_match host_str) \<or>
           (\<exists>port_str. getenv env ''MS_DEBUGGER_PORT'' = Some port_str \<and> \<not> CheckPort port_str)"
    and run: "EnableDebugger env w = Done u w'"
  shows "\<not> debugger_enabled (dbg w') \<and> grpc_client (dbg w') = None"
proof -
  let ?d0 = "(dbg w)\<lparr>num_step := 0, debugger_enabled := False, partial_memory := False,
                      grpc_client := None, debug_services := None\<rparr>"
  obtain dump_enabled where dump: "CheckDebuggerDumpEnabled env ?d0 = Inr dump_enabled"
    using run by (cases "CheckDebuggerDumpEnabled env ?d0") (simp_all add: EnableDebugger_def)
  let ?d1 = "?d0\<lparr>debugger_enabled := CheckDebuggerEnabled env\<rparr>"
  let ?d4 = "configure_partial_mem env
               (snd (configure_port env (snd (configure_host env ?d1))))"
  have off: "\<not> debugger_enabled ?d4"
    using bad
    by (auto simp: configure_partial_mem_frame configure_port_frame configure_host_frame)
  have none: "grpc_client ?d4 = None"
    by (simp add: configure_partial_mem_frame configure_port_frame configure_host_frame)
  show ?thesis
  proof (cases "\<not> CheckDebuggerEnabled env \<and> \<not> dump_enabled")
    case True
    then show ?thesis
      using run dump by (auto simp: EnableDebugger_def Let_def)
  next
    case False
    show ?thesis
    proof (cases "ENABLE_D env")
      case no_d: False
      then show ?thesis
        using run dump False off none
        by (auto simp: EnableDebugger_def Let_def case_prod_beta)
    next
      case yes_d: True
      show ?thesis
      proof (cases "set_overflow_info env ?d4")
        case (Inl s)
        then show ?thesis
          using run dump False yes_d
          by (auto simp: EnableDebugger_def Let_def case_prod_beta)
      next
        case (Inr d5)
        from set_overflow_info_frame [OF Inr] off none
        have "\<not> debugger_enabled d5" "grpc_client d5 = None" by simp_all
        then show ?thesis
          using run dump False yes_d Inr
          by (auto simp: EnableDebugger_def Let_def case_prod_beta)
      qed
    qed
  qed
qed

text \<open>
  Claim C7 fails on the empty port. \<^verbatim>\<open>CheckPort\<close> never enters its loop for the empty
  string and returns true, so with \<^verbatim>\<open>MS_DEBUGGER_PORT\<close> set to the empty string the debugger
  stays enabled and a gRPC client is constructed for port \<open>""\<close>.
\<close>

theorem EnableDebugger_empty_port_accepted:
  "CheckPort [] \<and>
   EnableDebugger
     (bare_environment\<lparr>getenv := [''ENABLE_MS_DEBUGGER'' \<mapsto> ''1'', ''MS_DEBUGGER_PORT'' \<mapsto> []]\<rparr>)
     \<lparr>dbg = Debugger_new, trace = [], inbox = []\<rparr> =
   Done () \<lparr>dbg = Debugger_new\<lparr>debugger_enabled := True,
                               grpc_client := Some (''localhost'', []),
                               debug_services := Some DebugServices_new\<rparr>,
            trace = [Ev_set_mem_reuse False], inbox = []\<rparr>"
  by (simp add: EnableDebugger_def configure_host_def configure_port_def
        configure_partial_mem_def bare_environment_def Debugger_new_def CheckPort_def
        CheckDebuggerDumpEnabled_def CheckDebuggerEnabled_def)

section \<open>Properties of \<^verbatim>\<open>CommandLoop\<close>\<close>

text \<open>
  One turn of the loop on a failed reply, and on a reply that carries no recognised
  command: the first counts the failure, the second leaves the count as it is.
\<close>

lemma CommandLoop_loop_failed_reply:
  assumes "grpc_client d = Some client" and "status reply \<noteq> OK"
  shows "CommandLoop_loop env metadata num_wait_fail d tr (reply # rest) =
     (if num_wait_fail + 1 > 5
      then Stopped Exit_Failure
             \<lparr>dbg = d, trace = tr @ [Ev_WaitForCommand metadata, Ev_ClearResAtexit], inbox = rest\<rparr>
      else CommandLoop_loop env metadata (num_wait_fail + 1) d
             (tr @ [Ev_WaitForCommand metadata, Ev_sleep_for (1000 * (num_wait_fail + 1))]) rest)"
  using assms by (simp add: Exit_def max_num_wait_fail_def Let_def)

lemma CommandLoop_loop_unknown_reply:
  assumes "grpc_client d = Some client" and "status reply = OK"
    and "GetCommand reply = kUnknownCMD"
  shows "CommandLoop_loop env metadata num_wait_fail d tr (reply # rest) =
     CommandLoop_loop env metadata num_wait_fail d (tr @ [Ev_WaitForCommand metadata]) rest"
  using assms by simp

text \<open>
  Six failed replies in a row from the start of the loop: five retries after sleeps of
  1 to 5 seconds, then \<^verbatim>\<open>Exit\<close>.
\<close>

lemma CommandLoop_loop_six_failures:
  assumes "grpc_client d = Some client"
  shows "CommandLoop_loop env metadata 0 d tr
           (EventReply FAILED c1 # EventReply FAILED c2 # EventReply FAILED c3 #
            EventReply FAILED c4 # EventReply FAILED c5 # EventReply FAILED c6 # rest) =
         Stopped Exit_Failure
           \<lparr>dbg = d,
            trace = tr @ [Ev_WaitForCommand metadata, Ev_sleep_for 1000,
                          Ev_WaitForCommand metadata, Ev_sleep_for 2000,
                          Ev_WaitForCommand metadata, Ev_sleep_for 3000,
                          Ev_WaitForCommand metadata, Ev_sleep_for 4000,
                          Ev_WaitForCommand metadata, Ev_sleep_for 5000,
                          Ev_WaitForCommand metadata, Ev_ClearResAtexit],
            inbox = rest\<rparr>"
  using assms by (simp add: Exit_def max_num_wait_fail_def)

text \<open>
  Claim C2 fails on a run of failures that is not the first of the loop:
  \<^verbatim>\<open>num_wait_fail\<close> is never reset by a successful reply. After a failure, a reply that is
  received (an unrecognised command), and a second failure, the loop sleeps 2 seconds
  for the second failure, although it is the first of its run.
\<close>

theorem CommandLoop_counts_all_failures:
  "CommandLoop bare_environment
     \<lparr>dbg = Debugger_new\<lparr>graph_ptr := Some \<lparr>kg_addr = 1, kg_graph_id = 2,
                                              kg_execution_order = [''Conv2D'']\<rparr>,
                         grpc_client := Some (''localhost'', ''50051''),
                         debug_services := Some DebugServices_new,
                         debugger_enabled := True\<rparr>,
      trace = [],
      inbox = [EventReply FAILED CMD_NOT_SET, EventReply OK CMD_NOT_SET,
               EventReply FAILED CMD_NOT_SET, EventReply OK (kRunCmd (RunCMD ''step'' []))]\<rparr> =
   Done ()
     \<lparr>dbg = Debugger_new\<lparr>graph_ptr := Some \<lparr>kg_addr = 1, kg_graph_id = 2,
                                              kg_execution_order = [''Conv2D'']\<rparr>,
                         grpc_client := Some (''localhost'', ''50051''),
                         debug_services := Some DebugServices_new,
                         debugger_enabled := True,
                         run_level := ''step''\<rparr>,
      trace = [Ev_WaitForCommand \<lparr>md_device_name = ''0:2'', md_cur_step = 0, md_backend = [],
                                  md_cur_node = [], md_training_done = False\<rparr>,
               Ev_sleep_for 1000,
               Ev_WaitForCommand \<lparr>md_device_name = ''0:2'', md_cur_step = 0, md_backend = [],
                                  md_cur_node = [], md_training_done = False\<rparr>,
               Ev_WaitForCommand \<lparr>md_device_name = ''0:2'', md_cur_step = 0, md_backend = [],
                                  md_cur_node = [], md_training_done = False\<rparr>,
               Ev_sleep_for 2000,
               Ev_WaitForCommand \<lparr>md_device_name = ''0:2'', md_cur_step = 0, md_backend = [],
                                  md_cur_node = [], md_training_done = False\<rparr>],
      inbox = []\<rparr>"
  by (simp add: CommandLoop_def Debugger_new_def metadata_of_def to_string.simps digit_chars_def
        max_num_wait_fail_def)

section \<open>Properties of \<^verbatim>\<open>PreExecute\<close>\<close>

lemma CheckDatasetGraph_loop_iff:
  "CheckDatasetGraph_loop nodes \<longleftrightarrow> ''GetNext'' \<in> set nodes \<or> ''InitDataSetQueue'' \<in> set nodes"
  by (induction nodes) auto

text \<open>
  Claim C4. For a graph whose execution order holds a node named \<open>GetNext\<close> or
  \<open>InitDataSetQueue\<close>, \<^verbatim>\<open>PreExecute\<close> causes no event at all (so it sends no graph and no
  metadata and does not wait for a command) and consumes no reply, whatever watchpoints
  are registered; when the backend is enabled and the graph differs from the bound one
  it binds the graph and sets \<^verbatim>\<open>is_dataset_graph_\<close>, and otherwise it changes nothing.
\<close>

theorem PreExecute_dataset_graph:
  assumes "''GetNext'' \<in> set (kg_execution_order graph) \<or>
           ''InitDataSetQueue'' \<in> set (kg_execution_order graph)"
  shows "PreExecute env graph w =
     (case DebuggerBackendEnabled env (dbg w) of
        Inl s \<Rightarrow> Stopped s w
      | Inr enabled \<Rightarrow>
          Done () (if enabled \<and> map_option kg_addr (graph_ptr (dbg w)) \<noteq> Some (kg_addr graph)
                   then w\<lparr>dbg := (dbg w)\<lparr>graph_ptr := Some graph, is_dataset_graph := True\<rparr>\<rparr>
                   else w)) \<and>
     trace (world_of (PreExecute env graph w)) = trace w \<and>
     inbox (world_of (PreExecute env graph w)) = inbox w"
proof -
  have ds: "CheckDatasetGraph_loop (kg_execution_order graph)"
    using assms by (simp add: CheckDatasetGraph_loop_iff)
  have eq: "PreExecute env graph w =
     (case DebuggerBackendEnabled env (dbg w) of
        Inl s \<Rightarrow> Stopped s w
      | Inr enabled \<Rightarrow>
          Done () (if enabled \<and> map_option kg_addr (graph_ptr (dbg w)) \<noteq> Some (kg_addr graph)
                   then w\<lparr>dbg := (dbg w)\<lparr>graph_ptr := Some graph, is_dataset_graph := True\<rparr>\<rparr>
                   else w))"
    using ds
    by (auto simp: PreExecute_def CheckGraphPtr_def CheckDatasetGraph_def Let_def split: sum.splits)
  have "trace (world_of (PreExecute env graph w)) = trace w"
    unfolding eq by (simp split: sum.splits)
  moreover have "inbox (world_of (PreExecute env graph w)) = inbox w"
    unfolding eq by (simp split: sum.splits)
  ultimately show ?thesis using eq by simp
qed

theorem PreExecute_dataset_graph_witness:
  "PreExecute
     (bare_environment\<lparr>getenv := [''ENABLE_MS_DEBUGGER'' \<mapsto> ''1'']\<rparr>)
     \<lparr>kg_addr = 5, kg_graph_id = 0, kg_execution_order = [''InitDataSetQueue'', ''GetNext'']\<rparr>
     \<lparr>dbg = Debugger_new\<lparr>debugger_enabled := True,
            grpc_client := Some (''localhost'', ''50051''),
            debug_services := Some (AddWatchpoint 1 2 0 [(''Default'', True)] DebugServices_new)\<rparr>,
      trace = [], inbox = [EventReply OK (kRunCmd (RunCMD ''step'' []))]\<rparr> =
   Done ()
     \<lparr>dbg = Debugger_new\<lparr>debugger_enabled := True,
            grpc_client := Some (''localhost'', ''50051''),
            debug_services := Some (AddWatchpoint 1 2 0 [(''Default'', True)] DebugServices_new),
            graph_ptr := Some \<lparr>kg_addr = 5, kg_graph_id = 0,
                                kg_execution_order = [''InitDataSetQueue'', ''GetNext'']\<rparr>,
            is_dataset_graph := True\<rparr>,
      trace = [], inbox = [EventReply OK (kRunCmd (RunCMD ''step'' []))]\<rparr>"
  using PreExecute_dataset_graph
    [of "\<lparr>kg_addr = 5, kg_graph_id = 0, kg_execution_order = [''InitDataSetQueue'', ''GetNext'']\<rparr>"
        "bare_environment\<lparr>getenv := [''ENABLE_MS_DEBUGGER'' \<mapsto> ''1'']\<rparr>"
        "\<lparr>dbg = Debugger_new\<lparr>debugger_enabled := True,
            grpc_client := Some (''localhost'', ''50051''),
            debug_services := Some (AddWatchpoint 1 2 0 [(''Default'', True)] DebugServices_new)\<rparr>,
      trace = [], inbox = [EventReply OK (kRunCmd (RunCMD ''step'' []))]\<rparr>"]
  by (simp add: DebuggerBackendEnabled_def CheckDebuggerDumpEnabled_def CheckDebuggerEnabled_def
        bare_environment_def Debugger_new_def)

text \<open>For contrast, a new graph without such a node is sent and the loop is entered.\<close>

lemma PreExecute_training_graph_example:
  "PreExecute
     (bare_environment\<lparr>getenv := [''ENABLE_MS_DEBUGGER'' \<mapsto> ''1'']\<rparr>)
     \<lparr>kg_addr = 5, kg_graph_id = 0, kg_execution_order = [''Conv2D'', ''ReLU'']\<rparr>
     \<lparr>dbg = Debugger_new, trace = [], inbox = [EventReply OK (kRunCmd (RunCMD ''step'' []))]\<rparr> =
   Done ()
     \<lparr>dbg = Debugger_new\<lparr>debugger_enabled := True,
            grpc_client := Some (''localhost'', ''50051''),
            debug_services := Some DebugServices_new,
            graph_ptr := Some \<lparr>kg_addr = 5, kg_graph_id = 0,
                                kg_execution_order = [''Conv2D'', ''ReLU'']\<rparr>,
            run_level := ''step''\<rparr>,
      trace = [Ev_set_mem_reuse False,
               Ev_SendMetadata \<lparr>md_device_name = ''0:0'', md_cur_step = 0, md_backend = [],
                                md_cur_node = [], md_training_done = False\<rparr>,
               Ev_SendGraph \<lparr>kg_addr = 5, kg_graph_id = 0,
                             kg_execution_order = [''Conv2D'', ''ReLU'']\<rparr>,
               Ev_WaitForCommand \<lparr>md_device_name = ''0:0'', md_cur_step = 0, md_backend = [],
                                  md_cur_node = [], md_training_done = False\<rparr>],
      inbox = []\<rparr>"
  by (simp add: PreExecute_def CheckGraphPtr_def CheckDatasetGraph_def EnableDebugger_def
        configure_host_def configure_port_def configure_partial_mem_def
        SendGraphAndSuspend_def SendMetadata_def CommandLoop_def metadata_of_def
        to_string.simps digit_chars_def CheckPort_def
        DebuggerBackendEnabled_def CheckDebuggerDumpEnabled_def CheckDebuggerEnabled_def
        bare_environment_def Debugger_new_def)

section \<open>Properties of \<^verbatim>\<open>PostExecute\<close>\<close>

text \<open>
  Whatever the replies, the command loop only adds to the event trace, and with a gRPC
  client its first event is \<^verbatim>\<open>WaitForCommand\<close> with the metadata it was entered with.
\<close>

lemma CommandLoop_loop_trace:
  "\<exists>rest. trace (world_of (CommandLoop_loop env metadata num_wait_fail d tr replies)) =
     tr @ (case grpc_client d of None \<Rightarrow> [] | Some client \<Rightarrow> [Ev_WaitForCommand metadata]) @ rest"
proof (induction replies arbitrary: num_wait_fail d tr)
  case Nil
  then show ?case by (simp split: option.splits)
next
  case (Cons reply rest)
  show ?case
  proof (cases "grpc_client d")
    case None
    then show ?thesis by simp
  next
    case (Some client)
    let ?tr = "tr @ [Ev_WaitForCommand metadata]"
    have step: "\<And>n d' tr'. \<exists>more. tr' = ?tr @ more \<Longrightarrow>
        \<exists>more. trace (world_of (CommandLoop_loop env metadata n d' tr' rest)) = ?tr @ more"
    proof -
      fix n d' tr'
      assume "\<exists>more. tr' = ?tr @ more"
      then obtain more where tr': "tr' = ?tr @ more" by blast
      obtain more' where "trace (world_of (CommandLoop_loop env metadata n d' tr' rest)) =
          tr' @ (case grpc_client d' of None \<Rightarrow> [] | Some client \<Rightarrow> [Ev_WaitForCommand metadata]) @ more'"
        using Cons.IH [of n d' tr'] by blast
      then show "\<exists>more. trace (world_of (CommandLoop_loop env metadata n d' tr' rest)) = ?tr @ more"
        using tr' by simp
    qed
    show ?thesis
    proof (cases "status reply \<noteq> OK")
      case True
      then show ?thesis
        using Some step [of "?tr @ [Ev_sleep_for (1000 * (num_wait_fail + 1))]" "num_wait_fail + 1" d]
        by (simp add: Let_def Exit_def)
    next
      case False
      show ?thesis
      proof (cases "GetCommand reply")
        case kUnknownCMD
        then show ?thesis using Some False step [of ?tr num_wait_fail d] by (simp add: Let_def)
      next
        case kExitCMD
        then show ?thesis using Some False by (simp add: Let_def Exit_def)
      next
        case kRunCMD
        then show ?thesis using Some False by (simp add: Let_def)
      next
        case kSetCMD
        show ?thesis
        proof (cases "debug_services d")
          case None
          then show ?thesis using Some False kSetCMD by (simp add: Let_def)
        next
          case (Some ds)
          then show ?thesis
            using \<open>grpc_client d = Some client\<close> False kSetCMD
              step [of ?tr num_wait_fail
                "d\<lparr>debug_services := Some (if GetWatchpointDelete reply
                                     then RemoveWatchpoint_ds (GetWatchpointID reply) ds
                                     else SetWatchpoint (GetWatchnodes reply)
                                            (GetWatchcondition reply) (GetWatchpointID reply) ds)\<rparr>"]
            by (simp add: Let_def)
        qed
      next
        case kViewCMD
        show ?thesis
        proof (cases "debug_services d")
          case None
          then show ?thesis using Some False kViewCMD by (simp add: Let_def)
        next
          case (Some ds)
          show ?thesis
          proof (cases "LoadTensors (GetDebuggerNumberDataType env) (tensor_loader_of ds) (GetTensors reply)")
            case (Inl e)
            then show ?thesis
              using Some \<open>grpc_client d = Some client\<close> False kViewCMD by (simp add: Let_def)
          next
            case (Inr tensors)
            then show ?thesis
              using Some \<open>grpc_client d = Some client\<close> False kViewCMD
                step [of "?tr @ [Ev_SendTensors tensors]" num_wait_fail d]
              by (simp add: Let_def)
          qed
        qed
      qed
    qed
  qed
qed


lemma CommandLoop_loop_waits:
  assumes "grpc_client d = Some client"
  shows "\<exists>rest. trace (world_of (CommandLoop_loop env metadata num_wait_fail d tr replies)) =
     tr @ Ev_WaitForCommand metadata # rest"
  using CommandLoop_loop_trace [of env metadata num_wait_fail d tr replies] assms by simp

text \<open>The overflow scan changes the watermark only; the step counter below \<open>INT_MAX\<close> counts up.\<close>

lemma CheckOpOverflow_frame:
  "CheckOpOverflow env d = Inr (op_names, d') \<Longrightarrow> d' = d\<lparr>last_overflow_bin := last_overflow_bin d'\<rparr>"
  by (auto simp: CheckOpOverflow_def split: sum.splits option.splits)

lemma sint_increment:
  fixes n :: "32 word"
  assumes "sint n < INT_MAX"
  shows "sint (n + 1) = sint n + 1"
proof -
  have lo: "- (2 ^ 31) \<le> sint n"
    using sint_ge [of n] by simp
  have "signed_take_bit 31 (sint n + 1) = sint n + 1"
    using lo assms by (intro signed_take_bit_int_eq_self) (simp_all add: INT_MAX_def)
  then show ?thesis
    by (simp add: sint_word_ariths)
qed

text \<open>
  Claim C3, as amended. Take a \<^verbatim>\<open>PostExecute\<close> call with the backend enabled, the run level
  not \<open>node\<close>, \<^verbatim>\<open>debugger_enabled_\<close> set, the graph not a data-loading graph, and the session
  as \<^verbatim>\<open>EnableDebugger\<close> leaves it: the debug services \<open>ds\<close>, the graph and the gRPC client
  are there. On a device target other than the GPU, with the step counter below \<open>INT_MAX\<close>
  and the overflow scan (where \<^verbatim>\<open>ENABLE_D\<close> is defined) returning the ops \<open>overflow_ops\<close>, the
  call increments the step counter by one, evaluates the watchpoints of \<open>ds\<close>, the debug
  services it was entered with, against every captured tensor (the tensor list of \<open>ds\<close>,
  unfiltered) and the overflow ops, sends the hits when there are any and nothing when
  there are none, and then enters the command loop with the new step in its metadata:
  the next event is \<^verbatim>\<open>WaitForCommand\<close> whether or not there was a hit. On the GPU target it
  enters the command loop and does nothing else: the step counter stays, no watchpoint is
  evaluated and the first event is \<^verbatim>\<open>WaitForCommand\<close>.
\<close>

theorem PostExecute_step:
  assumes enabled: "DebuggerBackendEnabled env (dbg w) = Inr True"
    and level: "run_level (dbg w) \<noteq> ''node''"
    and remote: "debugger_enabled (dbg w)"
    and training: "\<not> is_dataset_graph (dbg w)"
    and store: "debug_services (dbg w) = Some ds"
    and graph: "graph_ptr (dbg w) = Some g"
    and client: "grpc_client (dbg w) = Some client"
  shows "(device_target (dbg w) \<noteq> kGPUDevice env \<and> sint (num_step (dbg w)) < INT_MAX \<longrightarrow>
          (\<forall>overflow_ops d'.
             (if ENABLE_D env then CheckOpOverflow env ((dbg w)\<lparr>num_step := num_step (dbg w) + 1\<rparr>)
              else Inr ([], (dbg w)\<lparr>num_step := num_step (dbg w) + 1\<rparr>)) = Inr (overflow_ops, d') \<longrightarrow>
             (let hits = map hit_of
                    (DebugServices_CheckWatchpoints env ds overflow_ops (tensor_list_of ds));
                  sent = (if hits = [] then [] else [Ev_SendWatchpointHits hits])
              in PostExecute env w =
                   CommandLoop_loop env (metadata_of d' g) 0 d' (trace w @ sent) (inbox w) \<and>
                 sint (num_step d') = sint (num_step (dbg w)) + 1 \<and>
                 md_cur_step (metadata_of d' g) = num_step d' \<and>
                 debug_services d' = Some ds \<and>
                 (\<exists>rest. trace (world_of (PostExecute env w)) =
                    trace w @ sent @ Ev_WaitForCommand (metadata_of d' g) # rest)))) \<and>
         (device_target (dbg w) = kGPUDevice env \<longrightarrow>
            PostExecute env w =
              CommandLoop_loop env (metadata_of (dbg w) g) 0 (dbg w) (trace w) (inbox w) \<and>
            md_cur_step (metadata_of (dbg w) g) = num_step (dbg w) \<and>
            (\<exists>rest. trace (world_of (PostExecute env w)) =
               trace w @ Ev_WaitForCommand (metadata_of (dbg w) g) # rest))"
proof (intro conjI impI allI)
  assume gpu: "device_target (dbg w) = kGPUDevice env"
  show run: "PostExecute env w =
      CommandLoop_loop env (metadata_of (dbg w) g) 0 (dbg w) (trace w) (inbox w)"
    using enabled level remote training graph gpu by (simp add: PostExecute_def CommandLoop_def)
  show "md_cur_step (metadata_of (dbg w) g) = num_step (dbg w)"
    by (simp add: metadata_of_def)
  show "\<exists>rest. trace (world_of (PostExecute env w)) =
      trace w @ Ev_WaitForCommand (metadata_of (dbg w) g) # rest"
    unfolding run by (rule CommandLoop_loop_waits [OF client])
next
  fix overflow_ops d'
  let ?stepped = "(dbg w)\<lparr>num_step := num_step (dbg w) + 1\<rparr>"
  assume other: "device_target (dbg w) \<noteq> kGPUDevice env \<and> sint (num_step (dbg w)) < INT_MAX"
    and scan: "(if ENABLE_D env then CheckOpOverflow env ?stepped else Inr ([], ?stepped)) =
      Inr (overflow_ops, d')"
  have frame: "d' = ?stepped\<lparr>last_overflow_bin := last_overflow_bin d'\<rparr>"
  proof (cases "ENABLE_D env")
    case True
    then show ?thesis using scan CheckOpOverflow_frame [of env ?stepped overflow_ops d'] by simp
  next
    case False
    then show ?thesis using scan by auto
  qed
  have fields: "debug_services d' = Some ds" "graph_ptr d' = Some g"
    "grpc_client d' = Some client" "num_step d' = num_step (dbg w) + 1"
    by (subst frame, simp add: store graph client)+
  define hits where
    "hits = map hit_of (DebugServices_CheckWatchpoints env ds overflow_ops (tensor_list_of ds))"
  define sent where "sent = (if hits = [] then [] else [Ev_SendWatchpointHits hits])"
  have check: "CheckWatchpoints env [] (w\<lparr>dbg := ?stepped\<rparr>) = Done hits (w\<lparr>dbg := d'\<rparr>)"
  proof (cases "ENABLE_D env")
    case True
    then have "CheckOpOverflow env ?stepped = Inr (overflow_ops, d')"
      using scan by simp
    then show ?thesis
      using True fields by (simp add: CheckWatchpoints_def GetTensor_def hits_def Let_def)
  next
    case False
    then have "overflow_ops = []" "d' = ?stepped"
      using scan by simp_all
    then show ?thesis
      using False store by (simp add: CheckWatchpoints_def GetTensor_def hits_def Let_def)
  qed
  have run: "PostExecute env w =
      CommandLoop_loop env (metadata_of d' g) 0 d' (trace w @ sent) (inbox w)"
    using enabled level remote training other check fields
    by (simp add: PostExecute_def SendWatchpointsAndSuspend_def CommandLoop_def sent_def)
  have step: "sint (num_step d') = sint (num_step (dbg w)) + 1"
    using other by (simp add: fields sint_increment)
  have md: "md_cur_step (metadata_of d' g) = num_step d'"
    by (simp add: metadata_of_def)
  have waits: "\<exists>rest. trace (world_of (PostExecute env w)) =
      trace w @ sent @ Ev_WaitForCommand (metadata_of d' g) # rest"
    unfolding run using CommandLoop_loop_waits [OF fields(3), of env "metadata_of d' g" 0 "trace w @ sent" "inbox w"]
    by simp
  show "let hits = map hit_of
                    (DebugServices_CheckWatchpoints env ds overflow_ops (tensor_list_of ds));
            sent = (if hits = [] then [] else [Ev_SendWatchpointHits hits])
        in PostExecute env w =
             CommandLoop_loop env (metadata_of d' g) 0 d' (trace w @ sent) (inbox w) \<and>
           sint (num_step d') = sint (num_step (dbg w)) + 1 \<and>
           md_cur_step (metadata_of d' g) = num_step d' \<and>
           debug_services d' = Some ds \<and>
           (\<exists>rest. trace (world_of (PostExecute env w)) =
              trace w @ sent @ Ev_WaitForCommand (metadata_of d' g) # rest)"
    using run step md fields(1) waits unfolding Let_def hits_def [symmetric] sent_def [symmetric]
    by simp
qed


theorem PostExecute_step_witness:
  "PostExecute
     (bare_environment\<lparr>getenv := [''ENABLE_MS_DEBUGGER'' \<mapsto> ''1''],
        DebugServices_CheckWatchpoints := (\<lambda>ds overflow_ops tensor_list.
           concat (map (\<lambda>(name, slot, tensor).
             case watchpoint_table ds 3 of
               None \<Rightarrow> []
             | Some wp \<Rightarrow> if (name, False) \<in> set (wp_check_node_list wp)
                          then [(name, slot, wp_condition wp, 3)] else []) tensor_list))\<rparr>)
     \<lparr>dbg = Debugger_new\<lparr>graph_ptr := Some \<lparr>kg_addr = 1, kg_graph_id = 2,
                                              kg_execution_order = [''Conv2D'']\<rparr>,
                         grpc_client := Some (''localhost'', ''50051''),
                         debug_services := Some
                           (AddWatchpoint 3 1 0 [(''w'', False), (''b'', False)]
                              (DebugServices_new\<lparr>tensor_list_of :=
                                 [(''w'', ''0'', \<lparr>td_data_ptr = [1], td_data_size = 1,
                                                  td_dtype = 11, td_shape = [1]\<rparr>),
                                  (''c'', ''0'', \<lparr>td_data_ptr = [2], td_data_size = 1,
                                                  td_dtype = 11, td_shape = [1]\<rparr>),
                                  (''b'', ''1'', \<lparr>td_data_ptr = [3], td_data_size = 1,
                                                  td_dtype = 11, td_shape = [1]\<rparr>)]\<rparr>)),
                         device_target := ''Ascend'',
                         num_step := 7,
                         debugger_enabled := True\<rparr>,
      trace = [],
      inbox = [EventReply OK (kRunCmd (RunCMD ''step'' []))]\<rparr> =
   Done ()
     \<lparr>dbg = Debugger_new\<lparr>graph_ptr := Some \<lparr>kg_addr = 1, kg_graph_id = 2,
                                              kg_execution_order = [''Conv2D'']\<rparr>,
                         grpc_client := Some (''localhost'', ''50051''),
                         debug_services := Some
                           (AddWatchpoint 3 1 0 [(''w'', False), (''b'', False)]
                              (DebugServices_new\<lparr>tensor_list_of :=
                                 [(''w'', ''0'', \<lparr>td_data_ptr = [1], td_data_size = 1,
                                                  td_dtype = 11, td_shape = [1]\<rparr>),
                                  (''c'', ''0'', \<lparr>td_data_ptr = [2], td_data_size = 1,
                                                  td_dtype = 11, td_shape = [1]\<rparr>),
                                  (''b'', ''1'', \<lparr>td_data_ptr = [3], td_data_size = 1,
                                                  td_dtype = 11, td_shape = [1]\<rparr>)]\<rparr>)),
                         device_target := ''Ascend'',
                         num_step := 8,
                         debugger_enabled := True,
                         run_level := ''step''\<rparr>,
      trace = [Ev_SendWatchpointHits
                 [WatchpointHit 3 (TensorProto_new\<lparr>t_node_name := ''w'', t_slot := ''0'',
                                                    t_finished := True\<rparr>) 1,
                  WatchpointHit 3 (TensorProto_new\<lparr>t_node_name := ''b'', t_slot := ''1'',
                                                    t_finished := True\<rparr>) 1],
               Ev_WaitForCommand \<lparr>md_device_name = ''0:2'', md_cur_step = 8,
                                  md_backend = ''Ascend'', md_cur_node = [],
                                  md_training_done = False\<rparr>],
      inbox = []\<rparr>"
proof -
  define env where "env = bare_environment\<lparr>getenv := [''ENABLE_MS_DEBUGGER'' \<mapsto> ''1''],
        DebugServices_CheckWatchpoints := (\<lambda>ds overflow_ops tensor_list.
           concat (map (\<lambda>(name, slot, tensor).
             case watchpoint_table ds 3 of
               None \<Rightarrow> []
             | Some wp \<Rightarrow> if (name, False) \<in> set (wp_check_node_list wp)
                          then [(name, slot, wp_condition wp, 3)] else []) tensor_list))\<rparr>"
  define ds where "ds = AddWatchpoint 3 1 0 [(''w'', False), (''b'', False)]
                              (DebugServices_new\<lparr>tensor_list_of :=
                                 [(''w'', ''0'', \<lparr>td_data_ptr = [1], td_data_size = 1,
                                                  td_dtype = 11, td_shape = [1]\<rparr>),
                                  (''c'', ''0'', \<lparr>td_data_ptr = [2], td_data_size = 1,
                                                  td_dtype = 11, td_shape = [1]\<rparr>),
                                  (''b'', ''1'', \<lparr>td_data_ptr = [3], td_data_size = 1,
                                                  td_dtype = 11, td_shape = [1]\<rparr>)]\<rparr>)"
  define g where "g = \<lparr>kg_addr = 1, kg_graph_id = 2, kg_execution_order = [''Conv2D'']\<rparr>"
  define w where "w = \<lparr>dbg = Debugger_new\<lparr>graph_ptr := Some g,
                         grpc_client := Some (''localhost'', ''50051''),
                         debug_services := Some ds,
                         device_target := ''Ascend'',
                         num_step := 7,
                         debugger_enabled := True\<rparr>,
      trace = [],
      inbox = [EventReply OK (kRunCmd (RunCMD ''step'' []))]\<rparr>"
  have enabled: "DebuggerBackendEnabled env (dbg w) = Inr True"
    by (simp add: DebuggerBackendEnabled_def CheckDebuggerDumpEnabled_def CheckDebuggerEnabled_def
          env_def w_def bare_environment_def Debugger_new_def)
  have level: "run_level (dbg w) \<noteq> ''node''" and remote: "debugger_enabled (dbg w)"
    and training: "\<not> is_dataset_graph (dbg w)" and store: "debug_services (dbg w) = Some ds"
    and graph: "graph_ptr (dbg w) = Some g"
    and client: "grpc_client (dbg w) = Some (''localhost'', ''50051'')"
    by (simp_all add: w_def Debugger_new_def)
  have other: "device_target (dbg w) \<noteq> kGPUDevice env \<and> sint (num_step (dbg w)) < INT_MAX"
    by (simp add: w_def env_def bare_environment_def Debugger_new_def INT_MAX_def)
  have scan: "(if ENABLE_D env then CheckOpOverflow env ((dbg w)\<lparr>num_step := num_step (dbg w) + 1\<rparr>)
              else Inr ([], (dbg w)\<lparr>num_step := num_step (dbg w) + 1\<rparr>)) =
      Inr ([], (dbg w)\<lparr>num_step := num_step (dbg w) + 1\<rparr>)"
    by (simp add: env_def bare_environment_def)
  have hits: "map hit_of (DebugServices_CheckWatchpoints env ds [] (tensor_list_of ds)) =
      [WatchpointHit 3 (TensorProto_new\<lparr>t_node_name := ''w'', t_slot := ''0'',
                                         t_finished := True\<rparr>) 1,
       WatchpointHit 3 (TensorProto_new\<lparr>t_node_name := ''b'', t_slot := ''1'',
                                         t_finished := True\<rparr>) 1]"
    by (simp add: env_def ds_def bare_environment_def AddWatchpoint_def DebugServices_new_def
          hit_of_def)
  have "PostExecute env w =
      CommandLoop_loop env (metadata_of ((dbg w)\<lparr>num_step := num_step (dbg w) + 1\<rparr>) g) 0
        ((dbg w)\<lparr>num_step := num_step (dbg w) + 1\<rparr>)
        (trace w @ [Ev_SendWatchpointHits
           [WatchpointHit 3 (TensorProto_new\<lparr>t_node_name := ''w'', t_slot := ''0'',
                                              t_finished := True\<rparr>) 1,
            WatchpointHit 3 (TensorProto_new\<lparr>t_node_name := ''b'', t_slot := ''1'',
                                              t_finished := True\<rparr>) 1]])
        (inbox w)"
    using PostExecute_step [OF enabled level remote training store graph client] other scan
    by (simp add: hits Let_def)
  then have "PostExecute env w =
      Done () \<lparr>dbg = (dbg w)\<lparr>num_step := 8, run_level := ''step''\<rparr>,
               trace = [Ev_SendWatchpointHits
                 [WatchpointHit 3 (TensorProto_new\<lparr>t_node_name := ''w'', t_slot := ''0'',
                                                    t_finished := True\<rparr>) 1,
                  WatchpointHit 3 (TensorProto_new\<lparr>t_node_name := ''b'', t_slot := ''1'',
                                                    t_finished := True\<rparr>) 1],
               Ev_WaitForCommand \<lparr>md_device_name = ''0:2'', md_cur_step = 8,
                                  md_backend = ''Ascend'', md_cur_node = [],
                                  md_training_done = False\<rparr>],
               inbox = []\<rparr>"
    by (simp add: w_def g_def Debugger_new_def metadata_of_def to_string.simps digit_chars_def)
  then show ?thesis
    by (simp add: env_def w_def g_def ds_def Debugger_new_def)
qed

text \<open>
  The claim as stated promises the increment and the evaluation for every such call; on
  the GPU target the step counter stays at 7 and the hit the evaluation would report is
  not sent.
\<close>

theorem PostExecute_GPU_counterexample:
  "PostExecute
     (bare_environment\<lparr>getenv := [''ENABLE_MS_DEBUGGER'' \<mapsto> ''1''],
        DebugServices_CheckWatchpoints := (\<lambda>ds overflow_ops tensor_list. [(''w'', ''0'', 1, 3)])\<rparr>)
     \<lparr>dbg = Debugger_new\<lparr>graph_ptr := Some \<lparr>kg_addr = 1, kg_graph_id = 2,
                                              kg_execution_order = [''Conv2D'']\<rparr>,
                         grpc_client := Some (''localhost'', ''50051''),
                         debug_services := Some DebugServices_new,
                         device_target := ''GPU'',
                         num_step := 7,
                         debugger_enabled := True\<rparr>,
      trace = [],
      inbox = [EventReply OK (kRunCmd (RunCMD ''step'' []))]\<rparr> =
   Done ()
     \<lparr>dbg = Debugger_new\<lparr>graph_ptr := Some \<lparr>kg_addr = 1, kg_graph_id = 2,
                                              kg_execution_order = [''Conv2D'']\<rparr>,
                         grpc_client := Some (''localhost'', ''50051''),
                         debug_services := Some DebugServices_new,
                         device_target := ''GPU'',
                         num_step := 7,
                         debugger_enabled := True,
                         run_level := ''step''\<rparr>,
      trace = [Ev_WaitForCommand \<lparr>md_device_name = ''0:2'', md_cur_step = 7, md_backend = ''GPU'',
                                  md_cur_node = [], md_training_done = False\<rparr>],
      inbox = []\<rparr>"
  by (simp add: PostExecute_def DebuggerBackendEnabled_def CheckDebuggerDumpEnabled_def
        CheckDebuggerEnabled_def bare_environment_def
        CommandLoop_def Debugger_new_def metadata_of_def to_string.simps digit_chars_def
        max_num_wait_fail_def)

text \<open>At \<open>INT_MAX\<close> steps the increment is undefined behaviour.\<close>

lemma PostExecute_step_counter_overflow:
  assumes "DebuggerBackendEnabled env (dbg w) = Inr True"
    and "run_level (dbg w) \<noteq> ''node''"
    and "debugger_enabled (dbg w)"
    and "\<not> is_dataset_graph (dbg w)"
    and "device_target (dbg w) \<noteq> kGPUDevice env"
    and "num_step (dbg w) = 0x7FFFFFFF"
  shows "PostExecute env w = Stopped Undefined_Behaviour w"
  using assms by (simp add: PostExecute_def INT_MAX_def)

end
